theory Spec2Isabelle
  imports Main "HOL-Library.Multiset"
begin

section \<open>The inventory cache of the ClusterIQ API server (cmd/api/api_server.go)\<close>

text \<open>
  The API server keeps one global pointer \<^verbatim>\<open>inven *inventory.Inventory\<close>. Every handler
  first calls \<^verbatim>\<open>updateStock\<close>, which reads the key \<^verbatim>\<open>"Stock"\<close> from Redis and hands the
  text to \<^verbatim>\<open>json.Unmarshal(..., &inven)\<close>, and then walks the inventory to build its answer.

  The embedding follows the file function by function. What the file does to the outside
  (Redis, the logger, the HTTP context) is recorded in a trace; the global \<^verbatim>\<open>inven\<close> is a
  field of an explicit state.
\<close>

subsection \<open>Data model (package inventory)\<close>

text \<open>
  Modelled from the spec: the declarations of package \<^verbatim>\<open>inventory\<close> (\<^verbatim>\<open>Inventory\<close>,
  \<^verbatim>\<open>Account\<close>, \<^verbatim>\<open>Cluster\<close>, \<^verbatim>\<open>Instance\<close>, \<^verbatim>\<open>NewInventory\<close>) are not part of the file.
  The spec's data model gives an Inventory as a mapping from account name to Account, an
  Account as a name and a mapping from cluster name to Cluster, a Cluster as a name and
  an ordered sequence of Instances, and an Instance as an opaque payload (the type
  variable \<open>'i\<close>). The uses in the file agree: \<^verbatim>\<open>inven.Accounts[name]\<close> with the
  two-valued lookup, \<^verbatim>\<open>range account.Clusters\<close>, \<^verbatim>\<open>cluster.Name\<close>, \<^verbatim>\<open>range cluster.Instances\<close>.

  A Go map is a finite partial function. The map \<^verbatim>\<open>Clusters\<close> holds pointers
  (\<^verbatim>\<open>*cluster\<close> in the handlers): under a key it has \<open>None\<close>, the nil pointer, which
  the decoder stores for a cluster given as \<^verbatim>\<open>null\<close>, or \<open>Some c\<close>, a pointer to the
  cluster \<open>c\<close>. The decoder allocates one cluster per entry, so no two entries point to
  the same cluster, and the pointer is modelled by the cluster it points to.
\<close>

record 'i Cluster =
  Name :: string
  Instances :: "'i list"

record 'i Account =
  Name :: string
  Clusters :: "string \<rightharpoonup> 'i Cluster option"

record 'i Inventory =
  Accounts :: "string \<rightharpoonup> 'i Account"

text \<open>
  Modelled from the spec: \<^verbatim>\<open>inventory.NewInventory()\<close>, called once by \<^verbatim>\<open>init\<close>; the cache
  "is empty if no load has ever succeeded".
\<close>

definition NewInventory :: "'i Inventory" where
  "NewInventory = \<lparr>Inventory.Accounts = Map.empty\<rparr>"

subsection \<open>The state and the trace of outside calls\<close>

datatype call =
    LoggerDebug     \<comment> \<open>\<^verbatim>\<open>logger.Debug\<close>\<close>
  | RdbGet          \<comment> \<open>\<^verbatim>\<open>rdb.Get(ctx, redisKey).Result()\<close>: one round trip to the store\<close>
  | LoggerError     \<comment> \<open>\<^verbatim>\<open>logger.Error\<close>\<close>
  | JsonUnmarshal   \<comment> \<open>\<^verbatim>\<open>json.Unmarshal\<close>: one deserialization attempt\<close>
  | Header          \<comment> \<open>\<^verbatim>\<open>c.Header\<close>\<close>
  | Respond         \<comment> \<open>\<^verbatim>\<open>c.PureJSON\<close> or \<^verbatim>\<open>c.Status\<close>\<close>

text \<open>
  \<open>inven\<close> is the global pointer: \<open>None\<close> is the nil pointer, \<open>Some t\<close> points to
  the inventory \<open>t\<close>. \<open>trace\<close> lists the outside calls made so far, oldest first.
\<close>

record 'i state =
  inven :: "'i Inventory option"
  trace :: "call list"

definition emit :: "call \<Rightarrow> 'i state \<Rightarrow> 'i state" where
  "emit c s = s\<lparr>trace := trace s @ [c]\<rparr>"

text \<open>\<^verbatim>\<open>init\<close>: \<^verbatim>\<open>inven = inventory.NewInventory()\<close>.\<close>

definition init :: "'i state" where
  "init = \<lparr>inven = Some NewInventory, trace = []\<rparr>"

subsection \<open>What the store returns, and \<^verbatim>\<open>json.Unmarshal\<close>\<close>

text \<open>
  The wire format of the stored text and the field tags of the inventory structs are not
  given, so a stored text is modelled by what \<^verbatim>\<open>encoding/json\<close> makes of it for a target
  of type \<^verbatim>\<open>*Inventory\<close>:

  \<^item> \<open>Malformed\<close>: the text is not well-formed JSON (the empty text included).
    \<^verbatim>\<open>Unmarshal\<close> checks the syntax of the whole text first and returns a SyntaxError
    before it touches the target.
  \<^item> \<open>Literal_null\<close>: the JSON literal \<^verbatim>\<open>null\<close>. "To unmarshal JSON into a pointer,
    Unmarshal first handles the case of the JSON being the JSON literal null. In that
    case, Unmarshal sets the pointer to nil." No error.
  \<^item> \<open>Document m e\<close>: any other well-formed text. \<open>m\<close> says what the text holds for the
    field \<^verbatim>\<open>Accounts\<close>; \<open>e\<close> says whether some value of the text does not suit the Go
    type it is decoded into. In that case "Unmarshal skips that field and completes the
    unmarshaling as best it can" and returns an UnmarshalTypeError, and \<open>m\<close> holds what
    was decoded.

  For the field \<^verbatim>\<open>Accounts\<close>: \<open>Absent\<close> when no key of the text's object is decoded into
  it (also when the text is not an object, or the key's value is no object); \<open>Null\<close>
  when the key's value is \<^verbatim>\<open>null\<close>; \<open>Entries es\<close> when it is an object, whose members
  decode to the accounts \<open>es\<close>, in the order of the text.
\<close>

datatype 'i accounts_member =
    Absent
  | Null
  | Entries "(string \<times> 'i Account) list"

datatype 'i document =
    Malformed
  | Literal_null
  | Document "'i accounts_member" bool

text \<open>
  \<^verbatim>\<open>rdb.Get(ctx, redisKey).Result()\<close> returns the stored text, or an error (the store is
  unreachable, the key is missing) together with the empty text.
\<close>

datatype 'i reply =
    Failure
  | Stored "'i document"

definition Result :: "'i reply \<Rightarrow> 'i document \<times> bool" where
  "Result r = (case r of Failure \<Rightarrow> (Malformed, True) | Stored d \<Rightarrow> (d, False))"

text \<open>
  "To unmarshal a JSON object into a map, Unmarshal first establishes a map to use. If the
  map is nil, Unmarshal allocates a new map. Otherwise Unmarshal reuses the existing map,
  keeping existing entries. Unmarshal then stores key-value pairs from the JSON object into
  the map." Each value is decoded into a fresh element and stored under its key.
\<close>

fun store_entries :: "('k \<rightharpoonup> 'v) \<Rightarrow> ('k \<times> 'v) list \<Rightarrow> ('k \<rightharpoonup> 'v)" where
  "store_entries m [] = m"
| "store_entries m ((k, v) # es) = store_entries (m(k \<mapsto> v)) es"

fun decode_Accounts :: "'i accounts_member \<Rightarrow> 'i Inventory \<Rightarrow> 'i Inventory" where
  "decode_Accounts Absent t = t"
| "decode_Accounts Null t = t\<lparr>Inventory.Accounts := Map.empty\<rparr>"
| "decode_Accounts (Entries es) t =
     t\<lparr>Inventory.Accounts := store_entries (Inventory.Accounts t) es\<rparr>"

text \<open>
  \<^verbatim>\<open>json.Unmarshal(data, &inven)\<close>: the new value of \<^verbatim>\<open>inven\<close> and whether an error is
  returned. "Unmarshal unmarshals the JSON into the value pointed at by the pointer. If
  the pointer is nil, Unmarshal allocates a new value for it to point to": the inventory
  that \<^verbatim>\<open>inven\<close> points to is decoded into, it is not replaced.
\<close>

fun Unmarshal :: "'i document \<Rightarrow> 'i Inventory option \<Rightarrow> 'i Inventory option \<times> bool" where
  "Unmarshal Malformed p = (p, True)"
| "Unmarshal Literal_null p = (None, False)"
| "Unmarshal (Document m e) p =
     (Some (decode_Accounts m
        (case p of None \<Rightarrow> \<lparr>Inventory.Accounts = Map.empty\<rparr> | Some t \<Rightarrow> t)), e)"

subsection \<open>\<^verbatim>\<open>updateStock\<close>\<close>

text \<open>
  \<^verbatim>\<open>
  func updateStock() {
      val, err := rdb.Get(ctx, redisKey).Result()
      if err != nil {
          logger.Error("Can't connect to DB for inventory updating", zap.Error(err))
      }
      json.Unmarshal([]byte(val), &inven)
  }
  \<close>
  There is no return after the error is logged, and the error that \<^verbatim>\<open>Unmarshal\<close> returns
  is dropped.
\<close>

definition updateStock :: "'i reply \<Rightarrow> 'i state \<Rightarrow> 'i state" where
  "updateStock rdb s =
     (let (val, err) = Result rdb;
          s1 = emit RdbGet s;
          s2 = (if err then emit LoggerError s1 else s1);
          s3 = emit JsonUnmarshal s2
      in s3\<lparr>inven := fst (Unmarshal val (inven s3))\<rparr>)"

subsection \<open>Slices and the list responses\<close>

text \<open>
  A Go slice is nil or holds a sequence: \<open>None\<close> is the nil slice of
  \<^verbatim>\<open>var instances []inventory.Instance\<close>, which JSON writes as \<^verbatim>\<open>null\<close>, and \<open>Some xs\<close>
  is a slice that is not nil, which JSON writes as an array. \<^verbatim>\<open>len\<close> of the nil slice
  is 0, and \<^verbatim>\<open>append\<close> to it allocates.
\<close>

type_synonym 'a slice = "'a list option"

definition len :: "'a slice \<Rightarrow> nat" where
  "len xs = (case xs of None \<Rightarrow> 0 | Some l \<Rightarrow> length l)"

definition append_slice :: "'a slice \<Rightarrow> 'a \<Rightarrow> 'a slice" where
  "append_slice xs x = (case xs of None \<Rightarrow> Some [x] | Some l \<Rightarrow> Some (l @ [x]))"

record 'i InstanceListResponse =
  Count :: nat
  Instances :: "'i slice"

record 'i ClusterListResponse =
  Count :: nat
  Clusters :: "'i Cluster slice"

record 'i AccountListResponse =
  Count :: nat
  Accounts :: "'i Account slice"

text \<open>
  \<^verbatim>\<open>
  func NewInstanceListResponse(instances []inventory.Instance) *InstanceListResponse {
      numInstances := len(instances)
      if numInstances == 0 {
          instances = []inventory.Instance{}
      }
      response := InstanceListResponse{Count: numInstances, Instances: instances}
      return &response
  }
  \<close>
  and the same for clusters and accounts.
\<close>

definition NewInstanceListResponse :: "'i slice \<Rightarrow> 'i InstanceListResponse" where
  "NewInstanceListResponse instances =
     (let numInstances = len instances;
          instances = (if numInstances = 0 then Some [] else instances)
      in \<lparr>InstanceListResponse.Count = numInstances,
          InstanceListResponse.Instances = instances\<rparr>)"

definition NewClusterListResponse :: "'i Cluster slice \<Rightarrow> 'i ClusterListResponse" where
  "NewClusterListResponse clusters =
     (let numClusters = len clusters;
          clusters = (if numClusters = 0 then Some [] else clusters)
      in \<lparr>ClusterListResponse.Count = numClusters,
          ClusterListResponse.Clusters = clusters\<rparr>)"

definition NewAccountListResponse :: "'i Account slice \<Rightarrow> 'i AccountListResponse" where
  "NewAccountListResponse accounts =
     (let numAccounts = len accounts;
          accounts = (if numAccounts = 0 then Some [] else accounts)
      in \<lparr>AccountListResponse.Count = numAccounts,
          AccountListResponse.Accounts = accounts\<rparr>)"

subsection \<open>Ranging over a map\<close>

text \<open>
  "The iteration order over maps is not specified and is not guaranteed to be the same
  from one iteration to the next" (the Go language specification); each entry is produced
  once. The order in which a \<^verbatim>\<open>range\<close> statement visits the keys is therefore an input of
  the model: \<open>range_map m ks\<close> are the entries of \<open>m\<close> as the keys \<open>ks\<close> visit them, and
  \<open>iteration_order m ks\<close> says that \<open>ks\<close> is an order in which Go may visit \<open>m\<close>: every
  key of \<open>m\<close>, once.
\<close>

fun range_map :: "('k \<rightharpoonup> 'v) \<Rightarrow> 'k list \<Rightarrow> ('k \<times> 'v) list" where
  "range_map m [] = []"
| "range_map m (k # ks) =
     (case m k of None \<Rightarrow> range_map m ks | Some v \<Rightarrow> (k, v) # range_map m ks)"

definition iteration_order :: "('k \<rightharpoonup> 'v) \<Rightarrow> 'k list \<Rightarrow> bool" where
  "iteration_order m ks \<longleftrightarrow> distinct ks \<and> set ks = dom m"

text \<open>
  The orders of one handler call: \<open>accounts_order\<close> for the loop over \<^verbatim>\<open>inven.Accounts\<close>,
  and \<open>clusters_order k\<close> for the loop over \<^verbatim>\<open>account.Clusters\<close> that runs for the account
  under key \<open>k\<close>.
\<close>

record order =
  accounts_order :: "string list"
  clusters_order :: "string \<Rightarrow> string list"

definition valid_order :: "'i Inventory \<Rightarrow> order \<Rightarrow> bool" where
  "valid_order t ord \<longleftrightarrow>
     iteration_order (Inventory.Accounts t) (accounts_order ord) \<and>
     (\<forall>k a. Inventory.Accounts t k = Some a \<longrightarrow>
        iteration_order (Account.Clusters a) (clusters_order ord k))"

subsection \<open>The handlers\<close>

text \<open>
  What a handler leaves the client with: \<^verbatim>\<open>c.PureJSON(status, body)\<close>, \<^verbatim>\<open>c.Status(status)\<close>
  with no body, or a panic, when the nil pointer \<^verbatim>\<open>inven\<close> or a nil pointer to a cluster
  is dereferenced: the handler is left at once and writes no response.
\<close>

datatype 'i body =
    InstanceList "'i InstanceListResponse"
  | ClusterList "'i ClusterListResponse"
  | AccountList "'i AccountListResponse"
  | AccountBody "'i Account"

datatype 'i outcome =
    PureJSON nat "'i body"
  | Status nat
  | Panic

definition StatusOK :: nat where
  "StatusOK = 200"

definition StatusNotFound :: nat where
  "StatusNotFound = 404"

definition addHeaders :: "'i state \<Rightarrow> 'i state" where
  "addHeaders s = emit Header s"

text \<open>
  A loop whose body may panic: \<open>Panics\<close> when some round panics, which ends the loop
  and the handler, and \<open>Returns acc\<close> with the value of the loop's variable after the
  last round otherwise.
\<close>

datatype 'a run =
    Panics
  | Returns 'a

fun for_range :: "('b \<Rightarrow> 'a \<Rightarrow> 'b run) \<Rightarrow> 'b \<Rightarrow> 'a list \<Rightarrow> 'b run" where
  "for_range body acc [] = Returns acc"
| "for_range body acc (x # xs) =
     (case body acc x of Panics \<Rightarrow> Panics | Returns acc' \<Rightarrow> for_range body acc' xs)"

text \<open>
  The loops of the handlers, each over the entries that \<^verbatim>\<open>range\<close> produces:
  \<^verbatim>\<open>
  var instances []inventory.Instance
  for _, account := range inven.Accounts {
      for _, cluster := range account.Clusters {
          for _, instance := range cluster.Instances {
              instances = append(instances, instance)
          }
      }
  }
  \<close>
  \<^verbatim>\<open>cluster.Instances\<close> reads through the pointer \<^verbatim>\<open>cluster\<close> and panics when it is nil.
\<close>

definition collect_instances :: "'i Inventory \<Rightarrow> order \<Rightarrow> 'i slice run" where
  "collect_instances t ord =
     for_range (\<lambda>instances (k, account).
        for_range (\<lambda>instances (_, cluster).
           case cluster of
             None \<Rightarrow> Panics
           | Some c \<Rightarrow>
               Returns (foldl (\<lambda>instances instance. append_slice instances instance)
                 instances (Cluster.Instances c)))
          instances (range_map (Account.Clusters account) (clusters_order ord k)))
       None (range_map (Inventory.Accounts t) (accounts_order ord))"

text \<open>
  \<^verbatim>\<open>
  var clusters []inventory.Cluster
  for _, account := range inven.Accounts {
      for _, cluster := range account.Clusters {
          clusters = append(clusters, *cluster)
      }
  }
  \<close>
  \<^verbatim>\<open>*cluster\<close> panics when \<^verbatim>\<open>cluster\<close> is nil.
\<close>

definition collect_clusters :: "'i Inventory \<Rightarrow> order \<Rightarrow> 'i Cluster slice run" where
  "collect_clusters t ord =
     for_range (\<lambda>clusters (k, account).
        for_range (\<lambda>clusters (_, cluster).
           case cluster of
             None \<Rightarrow> Panics
           | Some c \<Rightarrow> Returns (append_slice clusters c))
          clusters (range_map (Account.Clusters account) (clusters_order ord k)))
       None (range_map (Inventory.Accounts t) (accounts_order ord))"

text \<open>
  \<^verbatim>\<open>
  for _, account := range inven.Accounts {
      for _, cluster := range account.Clusters {
          if cluster.Name == name {
              clusters = append(clusters, *cluster)
          }
      }
  }
  \<close>
  \<^verbatim>\<open>cluster.Name\<close> panics when \<^verbatim>\<open>cluster\<close> is nil, whatever the name asked for.
\<close>

definition collect_clusters_named ::
    "string \<Rightarrow> 'i Inventory \<Rightarrow> order \<Rightarrow> 'i Cluster slice run" where
  "collect_clusters_named name t ord =
     for_range (\<lambda>clusters (k, account).
        for_range (\<lambda>clusters (_, cluster).
           case cluster of
             None \<Rightarrow> Panics
           | Some c \<Rightarrow>
               Returns (if Cluster.Name c = name then append_slice clusters c else clusters))
          clusters (range_map (Account.Clusters account) (clusters_order ord k)))
       None (range_map (Inventory.Accounts t) (accounts_order ord))"

text \<open>
  \<^verbatim>\<open>
  var accounts []inventory.Account
  for _, account := range inven.Accounts {
      accounts = append(accounts, account)
  }
  \<close>
  This loop copies the accounts and reads through no pointer to a cluster.
\<close>

definition collect_accounts :: "'i Inventory \<Rightarrow> order \<Rightarrow> 'i Account slice" where
  "collect_accounts t ord =
     foldl (\<lambda>accounts (_, account). append_slice accounts account)
       None (range_map (Inventory.Accounts t) (accounts_order ord))"

text \<open>
  Each handler logs, calls \<^verbatim>\<open>updateStock\<close>, sets the header, and then reads \<^verbatim>\<open>inven\<close>.
  \<open>rdb\<close> is what the store returns to this call, \<open>ord\<close> the orders in which this
  call's loops visit the maps.
\<close>

definition getInstances :: "'i reply \<Rightarrow> order \<Rightarrow> 'i state \<Rightarrow> 'i state \<times> 'i outcome" where
  "getInstances rdb ord s =
     (let s1 = emit LoggerDebug s;
          s2 = updateStock rdb s1;
          s3 = addHeaders s2
      in case inven s3 of
           None \<Rightarrow> (s3, Panic)
         | Some t \<Rightarrow>
             (case collect_instances t ord of
                Panics \<Rightarrow> (s3, Panic)
              | Returns instances \<Rightarrow>
                  (let response = NewInstanceListResponse instances
                   in (emit Respond s3, PureJSON StatusOK (InstanceList response)))))"

definition getClusters :: "'i reply \<Rightarrow> order \<Rightarrow> 'i state \<Rightarrow> 'i state \<times> 'i outcome" where
  "getClusters rdb ord s =
     (let s1 = emit LoggerDebug s;
          s2 = updateStock rdb s1;
          s3 = addHeaders s2
      in case inven s3 of
           None \<Rightarrow> (s3, Panic)
         | Some t \<Rightarrow>
             (case collect_clusters t ord of
                Panics \<Rightarrow> (s3, Panic)
              | Returns clusters \<Rightarrow>
                  (let response = NewClusterListResponse clusters
                   in (emit Respond s3, PureJSON StatusOK (ClusterList response)))))"

definition getClustersByName ::
    "string \<Rightarrow> 'i reply \<Rightarrow> order \<Rightarrow> 'i state \<Rightarrow> 'i state \<times> 'i outcome" where
  "getClustersByName name rdb ord s =
     (let s1 = emit LoggerDebug s;
          s2 = updateStock rdb s1;
          s3 = addHeaders s2
      in case inven s3 of
           None \<Rightarrow> (s3, Panic)
         | Some t \<Rightarrow>
             (case collect_clusters_named name t ord of
                Panics \<Rightarrow> (s3, Panic)
              | Returns clusters \<Rightarrow>
                  (let response = NewClusterListResponse clusters
                   in (emit Respond s3, PureJSON StatusOK (ClusterList response)))))"

definition getAccounts :: "'i reply \<Rightarrow> order \<Rightarrow> 'i state \<Rightarrow> 'i state \<times> 'i outcome" where
  "getAccounts rdb ord s =
     (let s1 = emit LoggerDebug s;
          s2 = updateStock rdb s1;
          s3 = addHeaders s2
      in case inven s3 of
           None \<Rightarrow> (s3, Panic)
         | Some t \<Rightarrow>
             (let accounts = collect_accounts t ord;
                  response = NewAccountListResponse accounts
              in (emit Respond s3, PureJSON StatusOK (AccountList response))))"

text \<open>
  \<^verbatim>\<open>
  account, ok := inven.Accounts[name]
  if ok {
      c.PureJSON(http.StatusOK, account)
  } else {
      c.Status(http.StatusNotFound)
  }
  \<close>
  This handler ranges over no map.
\<close>

definition getAccountsByName ::
    "string \<Rightarrow> 'i reply \<Rightarrow> 'i state \<Rightarrow> 'i state \<times> 'i outcome" where
  "getAccountsByName name rdb s =
     (let s1 = emit LoggerDebug s;
          s2 = updateStock rdb s1;
          s3 = addHeaders s2
      in case inven s3 of
           None \<Rightarrow> (s3, Panic)
         | Some t \<Rightarrow>
             (case Inventory.Accounts t name of
                Some account \<Rightarrow> (emit Respond s3, PureJSON StatusOK (AccountBody account))
              | None \<Rightarrow> (emit Respond s3, Status StatusNotFound)))"

subsection \<open>What the queries are to return\<close>

text \<open>
  The contents of an inventory, in the spec's words: the accounts present in it, the
  flattened union of the clusters of all its accounts, and the flattened union of the
  instances of all those clusters. They are multisets: the same cluster value under two
  accounts counts twice, and a map gives its values no order. \<open>pointees\<close> are the
  clusters that the pointers of a map point to; a nil pointer points to none.
\<close>

definition values_of :: "('k \<rightharpoonup> 'v) \<Rightarrow> 'v multiset" where
  "values_of m = image_mset snd (mset_set (Map.graph m))"

definition all_accounts :: "'i Inventory \<Rightarrow> 'i Account multiset" where
  "all_accounts t = values_of (Inventory.Accounts t)"

definition pointees :: "'a option multiset \<Rightarrow> 'a multiset" where
  "pointees M = (\<Sum>p\<in>#M. case p of None \<Rightarrow> {#} | Some c \<Rightarrow> {#c#})"

definition all_clusters :: "'i Inventory \<Rightarrow> 'i Cluster multiset" where
  "all_clusters t = (\<Sum>a\<in>#all_accounts t. pointees (values_of (Account.Clusters a)))"

definition all_instances :: "'i Inventory \<Rightarrow> 'i multiset" where
  "all_instances t = (\<Sum>c\<in>#all_clusters t. mset (Cluster.Instances c))"

text \<open>
  No cluster entry of the inventory is null: no account has a nil pointer under a key of
  its map \<^verbatim>\<open>Clusters\<close>.
\<close>

definition no_nil_cluster :: "'i Inventory \<Rightarrow> bool" where
  "no_nil_cluster t \<longleftrightarrow>
     (\<forall>k a c. Inventory.Accounts t k = Some a \<longrightarrow> Account.Clusters a c \<noteq> Some None)"

text \<open>
  The deserialized snapshot of a stored text: what \<^verbatim>\<open>Unmarshal\<close> makes of the text alone,
  that is, decoded through a pointer that is nil.
\<close>

definition snapshot :: "'i document \<Rightarrow> 'i Inventory option" where
  "snapshot d = fst (Unmarshal d None)"

text \<open>
  A refresh fails when the store returns an error or \<^verbatim>\<open>Unmarshal\<close> does.
\<close>

definition refresh_fails :: "'i reply \<Rightarrow> 'i state \<Rightarrow> bool" where
  "refresh_fails rdb s \<longleftrightarrow>
     snd (Result rdb) \<or> snd (Unmarshal (fst (Result rdb)) (inven s))"


text \<open>The elements of a slice; the nil slice has none.\<close>

definition elems :: "'a slice \<Rightarrow> 'a list" where
  "elems xs = (case xs of None \<Rightarrow> [] | Some l \<Rightarrow> l)"

text \<open>
  The clusters in the order in which the two nested loops of a handler visit them;
  \<open>pointed ps\<close> are the clusters that the pointers \<open>ps\<close> point to, in their order.
\<close>

definition pointed :: "'a option list \<Rightarrow> 'a list" where
  "pointed ps = concat (map (\<lambda>p. case p of None \<Rightarrow> [] | Some c \<Rightarrow> [c]) ps)"

definition clusters_visited :: "'i Inventory \<Rightarrow> order \<Rightarrow> 'i Cluster list" where
  "clusters_visited t ord =
     concat (map (\<lambda>(k, account).
         pointed (map snd (range_map (Account.Clusters account) (clusters_order ord k))))
       (range_map (Inventory.Accounts t) (accounts_order ord)))"

text \<open>
  An answer that lists exactly the items \<open>M\<close>: status 200, a sequence that is not nil
  and holds the items of \<open>M\<close> in some order, and a count that is its length.
\<close>

definition lists_instances :: "'i outcome \<Rightarrow> 'i multiset \<Rightarrow> bool" where
  "lists_instances out M \<longleftrightarrow>
     (\<exists>xs. mset xs = M \<and>
        out = PureJSON StatusOK (InstanceList
          \<lparr>InstanceListResponse.Count = length xs, InstanceListResponse.Instances = Some xs\<rparr>))"

definition lists_clusters :: "'i outcome \<Rightarrow> 'i Cluster multiset \<Rightarrow> bool" where
  "lists_clusters out M \<longleftrightarrow>
     (\<exists>xs. mset xs = M \<and>
        out = PureJSON StatusOK (ClusterList
          \<lparr>ClusterListResponse.Count = length xs, ClusterListResponse.Clusters = Some xs\<rparr>))"

definition lists_accounts :: "'i outcome \<Rightarrow> 'i Account multiset \<Rightarrow> bool" where
  "lists_accounts out M \<longleftrightarrow>
     (\<exists>xs. mset xs = M \<and>
        out = PureJSON StatusOK (AccountList
          \<lparr>AccountListResponse.Count = length xs, AccountListResponse.Accounts = Some xs\<rparr>))"

text \<open>
  A list-wrapped result: a body with a count field beside the items, the count being the
  number of items.
\<close>

fun list_wrapped :: "'i outcome \<Rightarrow> bool" where
  "list_wrapped (PureJSON c (InstanceList r)) =
     (InstanceListResponse.Count r = len (InstanceListResponse.Instances r))"
| "list_wrapped (PureJSON c (ClusterList r)) =
     (ClusterListResponse.Count r = len (ClusterListResponse.Clusters r))"
| "list_wrapped (PureJSON c (AccountList r)) =
     (AccountListResponse.Count r = len (AccountListResponse.Accounts r))"
| "list_wrapped (PureJSON c (AccountBody a)) = False"
| "list_wrapped (Status c) = False"
| "list_wrapped Panic = False"

text \<open>
  Two answers with the same items and the same count, whatever the order of the items.
\<close>

fun same_items :: "'i outcome \<Rightarrow> 'i outcome \<Rightarrow> bool" where
  "same_items (PureJSON c (InstanceList r)) (PureJSON c' (InstanceList r')) =
     (c = c' \<and> InstanceListResponse.Count r = InstanceListResponse.Count r' \<and>
      map_option mset (InstanceListResponse.Instances r) =
        map_option mset (InstanceListResponse.Instances r'))"
| "same_items (PureJSON c (ClusterList r)) (PureJSON c' (ClusterList r')) =
     (c = c' \<and> ClusterListResponse.Count r = ClusterListResponse.Count r' \<and>
      map_option mset (ClusterListResponse.Clusters r) =
        map_option mset (ClusterListResponse.Clusters r'))"
| "same_items (PureJSON c (AccountList r)) (PureJSON c' (AccountList r')) =
     (c = c' \<and> AccountListResponse.Count r = AccountListResponse.Count r' \<and>
      map_option mset (AccountListResponse.Accounts r) =
        map_option mset (AccountListResponse.Accounts r'))"
| "same_items out out' = (out = out')"

text \<open>
  The outside calls of one query with the outcome \<open>out\<close>, in order: the debug line, the
  fetch (and the error line when the fetch failed), the deserialization, the header, and
  the response, which is not reached when the handler panics.
\<close>

definition query_calls :: "'i reply \<Rightarrow> 'i outcome \<Rightarrow> call list" where
  "query_calls rdb out =
     [LoggerDebug, RdbGet] @ (if snd (Result rdb) then [LoggerError] else []) @
     [JsonUnmarshal, Header] @ (if out = Panic then [] else [Respond])"

subsection \<open>Example inventories\<close>

text \<open>
  The scenarios of the spec, with strings for instances: one account \<^verbatim>\<open>"acct1"\<close> with one
  cluster \<^verbatim>\<open>"clusterA"\<close> holding two instances, and two accounts that both contain a cluster
  named \<^verbatim>\<open>"shared"\<close>.
\<close>

definition clusterA :: "string Cluster" where
  "clusterA = \<lparr>Cluster.Name = ''clusterA'', Cluster.Instances = [''i-1'', ''i-2'']\<rparr>"

definition acct1 :: "string Account" where
  "acct1 = \<lparr>Account.Name = ''acct1'', Account.Clusters = [''clusterA'' \<mapsto> Some clusterA]\<rparr>"

definition shared_east :: "string Cluster" where
  "shared_east = \<lparr>Cluster.Name = ''shared'', Cluster.Instances = [''i-3'']\<rparr>"

definition shared_west :: "string Cluster" where
  "shared_west = \<lparr>Cluster.Name = ''shared'', Cluster.Instances = [''i-4'']\<rparr>"

definition east :: "string Account" where
  "east = \<lparr>Account.Name = ''east'', Account.Clusters = [''shared'' \<mapsto> Some shared_east]\<rparr>"

definition west :: "string Account" where
  "west = \<lparr>Account.Name = ''west'', Account.Clusters = [''shared'' \<mapsto> Some shared_west]\<rparr>"

text \<open>The stored texts that decode, without error, to these accounts.\<close>

definition stock_acct1 :: "string document" where
  "stock_acct1 = Document (Entries [(''acct1'', acct1)]) False"

definition stock_east_west :: "string document" where
  "stock_east_west = Document (Entries [(''east'', east), (''west'', west)]) False"

text \<open>
  A stored text like \<^verbatim>\<open>{"accounts": {"acct1": 5}}\<close>: the number does not suit an Account,
  so \<^verbatim>\<open>Unmarshal\<close> returns an UnmarshalTypeError, and the element it stores under the key
  is the zero Account.
\<close>

definition stock_mistyped :: "string document" where
  "stock_mistyped =
     Document (Entries [(''acct1'', \<lparr>Account.Name = [], Account.Clusters = Map.empty\<rparr>)]) True"

text \<open>
  A stored text like \<^verbatim>\<open>{"accounts": {"north": {"name": "north", "clusters": {"gone": null}}}}\<close>: it decodes
  without error, and the account has the nil pointer under the key \<^verbatim>\<open>gone\<close>.
\<close>

definition north :: "string Account" where
  "north = \<lparr>Account.Name = ''north'', Account.Clusters = [''gone'' \<mapsto> None]\<rparr>"

definition stock_north :: "string document" where
  "stock_north = Document (Entries [(''north'', north)]) False"

text \<open>
  \<open>visit as cs\<close>: the accounts are visited in the order \<open>as\<close>, and the clusters of
  every account in the order \<open>cs\<close>.
\<close>

definition visit :: "string list \<Rightarrow> string list \<Rightarrow> order" where
  "visit as cs = \<lparr>accounts_order = as, clusters_order = (\<lambda>k. cs)\<rparr>"

section \<open>Properties\<close>

subsection \<open>The loops as list functions\<close>

lemma foldl_append_slice:
  "foldl append_slice acc xs = (if xs = [] then acc else Some (elems acc @ xs))"
  by (induction xs arbitrary: acc) (auto simp: append_slice_def elems_def split: option.splits)

lemma foldl_nested_append_slice:
  "foldl (\<lambda>acc e. foldl append_slice acc (f e)) acc es = foldl append_slice acc (concat (map f es))"
  by (induction es arbitrary: acc) auto

lemma foldl_append_slice_snd:
  "foldl (\<lambda>acc p. append_slice acc (snd p)) acc es = foldl append_slice acc (map snd es)"
  by (simp add: foldl_map)

lemma concat_map_concat_map:
  "concat (map f (concat (map G es))) = concat (map (\<lambda>e. concat (map f (G e))) es)"
  by (induction es) auto

lemma filter_concat_map:
  "filter P (concat (map G es)) = concat (map (\<lambda>e. filter P (G e)) es)"
  by (induction es) auto

text \<open>A loop none of whose rounds panics is a fold; a loop with a round that panics, panics.\<close>

lemma for_range_Returns:
  assumes "\<And>x acc. x \<in> set xs \<Longrightarrow> body acc x = Returns (f acc x)"
  shows "for_range body acc xs = Returns (foldl f acc xs)"
  using assms by (induction xs arbitrary: acc) simp_all

lemma for_range_Panics:
  assumes "x \<in> set xs" and "\<And>acc. body acc x = Panics"
  shows "for_range body acc xs = Panics"
  using assms by (induction xs arbitrary: acc) (auto split: run.splits)

lemma foldl_pointed:
  "foldl (\<lambda>acc e. case snd e of None \<Rightarrow> acc | Some c \<Rightarrow> g acc c) acc es =
     foldl g acc (pointed (map snd es))"
  by (induction es arbitrary: acc) (auto simp: pointed_def split: option.splits)

lemma collect_accounts_eq:
  "collect_accounts t ord =
     foldl append_slice None (map snd (range_map (Inventory.Accounts t) (accounts_order ord)))"
  unfolding collect_accounts_def by (simp add: case_prod_unfold foldl_append_slice_snd)

lemma NewInstanceListResponse_foldl:
  "NewInstanceListResponse (foldl append_slice None xs) =
     \<lparr>InstanceListResponse.Count = length xs, InstanceListResponse.Instances = Some xs\<rparr>"
  by (simp add: NewInstanceListResponse_def foldl_append_slice len_def elems_def)

lemma NewClusterListResponse_foldl:
  "NewClusterListResponse (foldl append_slice None xs) =
     \<lparr>ClusterListResponse.Count = length xs, ClusterListResponse.Clusters = Some xs\<rparr>"
  by (simp add: NewClusterListResponse_def foldl_append_slice len_def elems_def)

lemma NewAccountListResponse_foldl:
  "NewAccountListResponse (foldl append_slice None xs) =
     \<lparr>AccountListResponse.Count = length xs, AccountListResponse.Accounts = Some xs\<rparr>"
  by (simp add: NewAccountListResponse_def foldl_append_slice len_def elems_def)

subsection \<open>Ranging over a map visits its entries\<close>

lemma set_range_map: "set (range_map m ks) = {(k, v). k \<in> set ks \<and> m k = Some v}"
  by (induction ks) (auto split: option.splits)

lemma distinct_range_map: "distinct ks \<Longrightarrow> distinct (range_map m ks)"
  by (induction ks) (auto simp: set_range_map split: option.splits)

lemma mset_range_map:
  assumes "iteration_order m ks"
  shows "mset (range_map m ks) = mset_set (Map.graph m)"
proof -
  have "set (range_map m ks) = Map.graph m"
    using assms by (auto simp: set_range_map iteration_order_def Map.graph_def)
  moreover have "distinct (range_map m ks)"
    using assms by (simp add: distinct_range_map iteration_order_def)
  ultimately show ?thesis
    using mset_set_set by metis
qed

lemma mset_values_range_map:
  "iteration_order m ks \<Longrightarrow> mset (map snd (range_map m ks)) = values_of m"
  by (simp add: values_of_def mset_range_map)

lemma mset_pointed: "mset (pointed ps) = pointees (mset ps)"
  by (induction ps) (auto simp: pointed_def pointees_def split: option.splits)

lemma mset_clusters_visited:
  assumes "valid_order t ord"
  shows "mset (clusters_visited t ord) = all_clusters t"
proof -
  let ?es = "range_map (Inventory.Accounts t) (accounts_order ord)"
  have inner: "mset (pointed (map snd (range_map (Account.Clusters a) (clusters_order ord k)))) =
      pointees (values_of (Account.Clusters a))" if "(k, a) \<in> set ?es" for k a
  proof -
    from that have "Inventory.Accounts t k = Some a" by (simp add: set_range_map)
    with assms have "iteration_order (Account.Clusters a) (clusters_order ord k)"
      by (simp add: valid_order_def)
    then show ?thesis by (simp only: mset_pointed mset_values_range_map)
  qed
  have "mset (clusters_visited t ord) =
      (\<Sum>e\<in>#mset ?es. mset (pointed (map snd
         (range_map (Account.Clusters (snd e)) (clusters_order ord (fst e))))))"
    by (simp add: clusters_visited_def mset_concat case_prod_unfold comp_def sum_mset_sum_list
        flip: mset_map)
  also have "\<dots> = (\<Sum>e\<in>#mset ?es. pointees (values_of (Account.Clusters (snd e))))"
    by (rule arg_cong[where f = sum_mset], rule image_mset_cong) (use inner in auto)
  also have "\<dots> = (\<Sum>a\<in>#mset (map snd ?es). pointees (values_of (Account.Clusters a)))"
    by (simp add: image_mset.compositionality comp_def)
  also have "\<dots> = all_clusters t"
    using assms by (simp only: all_clusters_def all_accounts_def mset_values_range_map valid_order_def)
  finally show ?thesis .
qed

lemma mset_instances_visited:
  assumes "valid_order t ord"
  shows "mset (concat (map Cluster.Instances (clusters_visited t ord))) = all_instances t"
  by (simp add: mset_concat all_instances_def comp_def sum_mset_sum_list
     flip: mset_clusters_visited[OF assms] mset_map)

subsection \<open>The loops over the clusters\<close>

text \<open>
  In an inventory with no null cluster entry, the pointers that the loops over the
  clusters visit are not nil.
\<close>

lemma visited_pointer_not_nil:
  assumes "no_nil_cluster t"
    and "e \<in> set (range_map (Inventory.Accounts t) ks)"
    and "x \<in> set (range_map (Account.Clusters (snd e)) cs)"
  shows "snd x \<noteq> None"
proof -
  from assms(2) have "Inventory.Accounts t (fst e) = Some (snd e)"
    by (auto simp: set_range_map)
  moreover from assms(3) have "Account.Clusters (snd e) (fst x) = Some (snd x)"
    by (auto simp: set_range_map)
  ultimately show ?thesis
    using assms(1) unfolding no_nil_cluster_def by metis
qed

text \<open>
  With every valid order, the loops over the clusters reach a null cluster entry when
  there is one.
\<close>

lemma nil_pointer_visited:
  assumes "valid_order t ord" and "\<not> no_nil_cluster t"
  obtains e x where "e \<in> set (range_map (Inventory.Accounts t) (accounts_order ord))"
    and "x \<in> set (range_map (Account.Clusters (snd e)) (clusters_order ord (fst e)))"
    and "snd x = None"
proof -
  from assms(2) obtain k a c where ka: "Inventory.Accounts t k = Some a"
    and c: "Account.Clusters a c = Some None"
    unfolding no_nil_cluster_def by blast
  from assms(1) ka have "k \<in> set (accounts_order ord)"
    and "iteration_order (Account.Clusters a) (clusters_order ord k)"
    by (auto simp: valid_order_def iteration_order_def)
  with ka c have "(k, a) \<in> set (range_map (Inventory.Accounts t) (accounts_order ord))"
    and "(c, None) \<in> set (range_map (Account.Clusters a) (clusters_order ord k))"
    by (auto simp: set_range_map iteration_order_def)
  then show thesis
    using that [of "(k, a)" "(c, None)"] by simp
qed


lemma foldl_nested:
  "foldl (\<lambda>acc e. foldl g acc (F e)) acc es = foldl g acc (concat (map F es))"
  by (induction es arbitrary: acc) auto

lemma nested_for_range_Returns:
  assumes "no_nil_cluster t"
  shows "for_range (\<lambda>acc e.
        for_range (\<lambda>acc x. case snd x of None \<Rightarrow> Panics | Some c \<Rightarrow> Returns (g acc c))
          acc (range_map (Account.Clusters (snd e)) (co (fst e))))
      acc0 (range_map (Inventory.Accounts t) ks) =
    Returns (foldl g acc0 (concat (map (\<lambda>e.
        pointed (map snd (range_map (Account.Clusters (snd e)) (co (fst e)))))
      (range_map (Inventory.Accounts t) ks))))"
proof -
  have inner: "for_range (\<lambda>acc x. case snd x of None \<Rightarrow> Panics | Some c \<Rightarrow> Returns (g acc c))
        acc (range_map (Account.Clusters (snd e)) (co (fst e))) =
      Returns (foldl g acc (pointed (map snd (range_map (Account.Clusters (snd e)) (co (fst e))))))"
    if "e \<in> set (range_map (Inventory.Accounts t) ks)" for e acc
  proof -
    have "for_range (\<lambda>acc x. case snd x of None \<Rightarrow> Panics | Some c \<Rightarrow> Returns (g acc c))
        acc (range_map (Account.Clusters (snd e)) (co (fst e))) =
      Returns (foldl (\<lambda>acc x. case snd x of None \<Rightarrow> acc | Some c \<Rightarrow> g acc c)
        acc (range_map (Account.Clusters (snd e)) (co (fst e))))"
      by (rule for_range_Returns)
        (use visited_pointer_not_nil [OF assms that] in \<open>auto split: option.splits\<close>)
    then show ?thesis
      by (simp only: foldl_pointed)
  qed
  show ?thesis
    by (simp only: for_range_Returns [where f = "\<lambda>acc e. foldl g acc
        (pointed (map snd (range_map (Account.Clusters (snd e)) (co (fst e)))))", OF inner]
        foldl_nested)
qed

lemma nested_for_range_Panics:
  assumes "valid_order t ord" and "\<not> no_nil_cluster t"
  shows "for_range (\<lambda>acc e.
        for_range (\<lambda>acc x. case snd x of None \<Rightarrow> Panics | Some c \<Rightarrow> Returns (g acc c))
          acc (range_map (Account.Clusters (snd e)) (clusters_order ord (fst e))))
      acc0 (range_map (Inventory.Accounts t) (accounts_order ord)) = Panics"
proof -
  from assms obtain e x
    where e: "e \<in> set (range_map (Inventory.Accounts t) (accounts_order ord))"
      and x: "x \<in> set (range_map (Account.Clusters (snd e)) (clusters_order ord (fst e)))"
      and nil: "snd x = None"
    by (rule nil_pointer_visited)
  have "for_range (\<lambda>acc x. case snd x of None \<Rightarrow> Panics | Some c \<Rightarrow> Returns (g acc c))
      acc (range_map (Account.Clusters (snd e)) (clusters_order ord (fst e))) = Panics" for acc
    by (rule for_range_Panics [OF x]) (simp add: nil)
  then show ?thesis
    by (rule for_range_Panics [OF e])
qed

lemma foldl_if_append_slice:
  "foldl (\<lambda>acc x. if P x then append_slice acc x else acc) acc xs =
     foldl append_slice acc (filter P xs)"
  by (induction xs arbitrary: acc) auto

lemma collect_clusters_Returns:
  assumes "no_nil_cluster t"
  shows "collect_clusters t ord = Returns (foldl append_slice None (clusters_visited t ord))"
  unfolding collect_clusters_def clusters_visited_def case_prod_unfold
  by (rule nested_for_range_Returns [OF assms])

lemma collect_clusters_named_Returns:
  assumes "no_nil_cluster t"
  shows "collect_clusters_named n t ord =
     Returns (foldl append_slice None (filter (\<lambda>c. Cluster.Name c = n) (clusters_visited t ord)))"
proof -
  have "collect_clusters_named n t ord =
      Returns (foldl (\<lambda>acc c. if Cluster.Name c = n then append_slice acc c else acc) None
        (clusters_visited t ord))"
    unfolding collect_clusters_named_def clusters_visited_def case_prod_unfold
    by (rule nested_for_range_Returns [OF assms,
        where g = "\<lambda>acc c. if Cluster.Name c = n then append_slice acc c else acc"])
  then show ?thesis
    by (simp only: foldl_if_append_slice [where P = "\<lambda>c. Cluster.Name c = n"])
qed

lemma collect_instances_Returns:
  assumes "no_nil_cluster t"
  shows "collect_instances t ord =
     Returns (foldl append_slice None (concat (map Cluster.Instances (clusters_visited t ord))))"
proof -
  have "collect_instances t ord =
      Returns (foldl (\<lambda>acc c. foldl append_slice acc (Cluster.Instances c)) None
        (clusters_visited t ord))"
    unfolding collect_instances_def clusters_visited_def case_prod_unfold
    by (rule nested_for_range_Returns [OF assms,
        where g = "\<lambda>acc c. foldl append_slice acc (Cluster.Instances c)"])
  then show ?thesis
    by (simp only: foldl_nested)
qed

lemma collect_clusters_Panics:
  assumes "valid_order t ord" and "\<not> no_nil_cluster t"
  shows "collect_clusters t ord = Panics"
  unfolding collect_clusters_def case_prod_unfold
  by (rule nested_for_range_Panics [OF assms])

lemma collect_clusters_named_Panics:
  assumes "valid_order t ord" and "\<not> no_nil_cluster t"
  shows "collect_clusters_named n t ord = Panics"
  unfolding collect_clusters_named_def case_prod_unfold
  by (rule nested_for_range_Panics [OF assms])

lemma collect_instances_Panics:
  assumes "valid_order t ord" and "\<not> no_nil_cluster t"
  shows "collect_instances t ord = Panics"
  unfolding collect_instances_def case_prod_unfold
  by (rule nested_for_range_Panics [OF assms])


subsection \<open>The state after a refresh and after a query\<close>

lemma inven_emit: "inven (emit c s) = inven s"
  by (simp add: emit_def)

lemma trace_emit: "trace (emit c s) = trace s @ [c]"
  by (simp add: emit_def)

lemma inven_addHeaders: "inven (addHeaders s) = inven s"
  by (simp add: addHeaders_def inven_emit)

lemma trace_addHeaders: "trace (addHeaders s) = trace s @ [Header]"
  by (simp add: addHeaders_def trace_emit)

lemma inven_updateStock:
  "inven (updateStock rdb s) = fst (Unmarshal (fst (Result rdb)) (inven s))"
  by (simp add: updateStock_def Let_def case_prod_unfold inven_emit)

lemma trace_updateStock:
  "trace (updateStock rdb s) =
     trace s @ [RdbGet] @ (if snd (Result rdb) then [LoggerError] else []) @ [JsonUnmarshal]"
  by (simp add: updateStock_def Let_def case_prod_unfold trace_emit)

lemma inven_updateStock_emit: "inven (updateStock rdb (emit c s)) = inven (updateStock rdb s)"
  by (simp add: inven_updateStock inven_emit)

lemma store_entries_map_add: "store_entries m es = m ++ map_of (rev es)"
proof (induction es arbitrary: m)
  case Nil
  show ?case by simp
next
  case (Cons e es)
  obtain k v where e: "e = (k, v)" by (cases e)
  have "store_entries m (e # es) = m(k \<mapsto> v) ++ map_of (rev es)"
    by (simp add: e Cons.IH fun_upd_def)
  also have "\<dots> = m ++ map_of (rev (e # es))"
    by (auto simp: e map_add_def fun_eq_iff split: option.splits)
  finally show ?case .
qed

lemma store_entries_twice: "store_entries (store_entries m es) es = store_entries m es"
  by (simp add: store_entries_map_add map_add_def fun_eq_iff split: option.splits)

lemma decode_Accounts_twice: "decode_Accounts m (decode_Accounts m t) = decode_Accounts m t"
  by (cases m) (simp_all add: store_entries_twice)

lemma Unmarshal_twice: "fst (Unmarshal d (fst (Unmarshal d p))) = fst (Unmarshal d p)"
  by (cases d; cases p) (simp_all add: decode_Accounts_twice)

text \<open>
  A refresh on a text with accounts stores them over the accounts held before: an account
  held before stays unless the text has an account under the same key.
\<close>

lemma updateStock_Entries:
  assumes "inven s = Some t"
  shows "inven (updateStock (Stored (Document (Entries es) e)) s) =
     Some (t\<lparr>Inventory.Accounts := Inventory.Accounts t ++ map_of (rev es)\<rparr>)"
  using assms by (simp add: inven_updateStock Result_def store_entries_map_add)

text \<open>
  What is held after the refresh, for each thing the store can return: nothing changes
  when the fetch fails or the text is malformed, \<^verbatim>\<open>null\<close> leaves the nil pointer, and any
  other text is decoded into the inventory held before, or into a new one when the
  pointer was nil.
\<close>

lemma inven_updateStock_cases:
  "inven (updateStock Failure s) = inven s"
  "inven (updateStock (Stored Malformed) s) = inven s"
  "inven (updateStock (Stored Literal_null) s) = None"
  "inven (updateStock (Stored (Document Absent e)) s) =
     Some (case inven s of None \<Rightarrow> \<lparr>Inventory.Accounts = Map.empty\<rparr> | Some t \<Rightarrow> t)"
  "inven (updateStock (Stored (Document Null e)) s) = Some \<lparr>Inventory.Accounts = Map.empty\<rparr>"
  "inven (updateStock (Stored (Document (Entries es) e)) s) =
     Some \<lparr>Inventory.Accounts =
       (case inven s of None \<Rightarrow> Map.empty | Some t \<Rightarrow> Inventory.Accounts t) ++
         map_of (rev es)\<rparr>"
  by (simp_all add: inven_updateStock Result_def store_entries_map_add split: option.splits)

lemma snd_getInstances:
  "snd (getInstances rdb ord s) =
     (case inven (updateStock rdb s) of
        None \<Rightarrow> Panic
      | Some t \<Rightarrow>
          (case collect_instances t ord of
             Panics \<Rightarrow> Panic
           | Returns instances \<Rightarrow>
               PureJSON StatusOK (InstanceList (NewInstanceListResponse instances))))"
  by (simp add: getInstances_def Let_def inven_addHeaders inven_updateStock_emit
      split: option.splits run.splits)

lemma snd_getClusters:
  "snd (getClusters rdb ord s) =
     (case inven (updateStock rdb s) of
        None \<Rightarrow> Panic
      | Some t \<Rightarrow>
          (case collect_clusters t ord of
             Panics \<Rightarrow> Panic
           | Returns clusters \<Rightarrow>
               PureJSON StatusOK (ClusterList (NewClusterListResponse clusters))))"
  by (simp add: getClusters_def Let_def inven_addHeaders inven_updateStock_emit
      split: option.splits run.splits)

lemma snd_getClustersByName:
  "snd (getClustersByName n rdb ord s) =
     (case inven (updateStock rdb s) of
        None \<Rightarrow> Panic
      | Some t \<Rightarrow>
          (case collect_clusters_named n t ord of
             Panics \<Rightarrow> Panic
           | Returns clusters \<Rightarrow>
               PureJSON StatusOK (ClusterList (NewClusterListResponse clusters))))"
  by (simp add: getClustersByName_def Let_def inven_addHeaders inven_updateStock_emit
      split: option.splits run.splits)

lemma snd_getAccounts:
  "snd (getAccounts rdb ord s) =
     (case inven (updateStock rdb s) of
        None \<Rightarrow> Panic
      | Some t \<Rightarrow> PureJSON StatusOK (AccountList (NewAccountListResponse (collect_accounts t ord))))"
  by (simp add: getAccounts_def Let_def inven_addHeaders inven_updateStock_emit split: option.splits)

lemma snd_getAccountsByName:
  "snd (getAccountsByName n rdb s) =
     (case inven (updateStock rdb s) of
        None \<Rightarrow> Panic
      | Some t \<Rightarrow>
          (case Inventory.Accounts t n of
             Some account \<Rightarrow> PureJSON StatusOK (AccountBody account)
           | None \<Rightarrow> Status StatusNotFound))"
  by (simp add: getAccountsByName_def Let_def inven_addHeaders inven_updateStock_emit split: option.splits)

lemma inven_getInstances: "inven (fst (getInstances rdb ord s)) = inven (updateStock rdb s)"
  by (simp add: getInstances_def Let_def inven_addHeaders inven_updateStock_emit inven_emit
      split: option.splits run.splits)

lemma inven_getClusters: "inven (fst (getClusters rdb ord s)) = inven (updateStock rdb s)"
  by (simp add: getClusters_def Let_def inven_addHeaders inven_updateStock_emit inven_emit
      split: option.splits run.splits)

lemma inven_getClustersByName:
  "inven (fst (getClustersByName n rdb ord s)) = inven (updateStock rdb s)"
  by (simp add: getClustersByName_def Let_def inven_addHeaders inven_updateStock_emit inven_emit
      split: option.splits run.splits)

lemma inven_getAccounts: "inven (fst (getAccounts rdb ord s)) = inven (updateStock rdb s)"
  by (simp add: getAccounts_def Let_def inven_addHeaders inven_updateStock_emit inven_emit
      split: option.splits)

lemma inven_getAccountsByName:
  "inven (fst (getAccountsByName n rdb s)) = inven (updateStock rdb s)"
  by (simp add: getAccountsByName_def Let_def inven_addHeaders inven_updateStock_emit inven_emit
      split: option.splits)

text \<open>
  The stored text \<^verbatim>\<open>null\<close> leaves \<^verbatim>\<open>inven\<close> nil, and every handler then panics when it
  reads \<^verbatim>\<open>inven.Accounts\<close>.
\<close>

lemma nil_inven_panics:
  assumes "inven (updateStock rdb s) = None"
  shows "snd (getInstances rdb ord s) = Panic" "snd (getClusters rdb ord s) = Panic"
    "snd (getClustersByName n rdb ord s) = Panic" "snd (getAccounts rdb ord s) = Panic"
    "snd (getAccountsByName n rdb s) = Panic"
  by (simp_all add: snd_getInstances snd_getClusters snd_getClustersByName snd_getAccounts
      snd_getAccountsByName assms)

text \<open>What each list handler answers when an inventory is held after the refresh.\<close>

lemma getAccounts_lists:
  assumes "inven (updateStock rdb s) = Some t" and "valid_order t ord"
  shows "lists_accounts (snd (getAccounts rdb ord s)) (all_accounts t)"
  using assms
  by (auto simp: lists_accounts_def snd_getAccounts collect_accounts_eq NewAccountListResponse_foldl
      all_accounts_def valid_order_def values_of_def mset_range_map)

lemma getClusters_lists:
  assumes "inven (updateStock rdb s) = Some t" and "valid_order t ord" and "no_nil_cluster t"
  shows "lists_clusters (snd (getClusters rdb ord s)) (all_clusters t)"
  using assms
  by (auto simp: lists_clusters_def snd_getClusters collect_clusters_Returns
      NewClusterListResponse_foldl mset_clusters_visited)

lemma getClustersByName_lists:
  assumes "inven (updateStock rdb s) = Some t" and "valid_order t ord" and "no_nil_cluster t"
  shows "lists_clusters (snd (getClustersByName n rdb ord s))
           (filter_mset (\<lambda>c. Cluster.Name c = n) (all_clusters t))"
  using assms
  by (auto simp: lists_clusters_def snd_getClustersByName collect_clusters_named_Returns
      NewClusterListResponse_foldl simp flip: mset_clusters_visited)

lemma getInstances_lists:
  assumes "inven (updateStock rdb s) = Some t" and "valid_order t ord" and "no_nil_cluster t"
  shows "lists_instances (snd (getInstances rdb ord s)) (all_instances t)"
  using assms
  by (auto simp: lists_instances_def snd_getInstances collect_instances_Returns
      NewInstanceListResponse_foldl mset_instances_visited)

text \<open>A null cluster entry makes the three handlers that visit the clusters panic.\<close>

lemma nil_cluster_panics:
  assumes "inven (updateStock rdb s) = Some t" and "valid_order t ord" and "\<not> no_nil_cluster t"
  shows "snd (getInstances rdb ord s) = Panic" "snd (getClusters rdb ord s) = Panic"
    "snd (getClustersByName n rdb ord s) = Panic"
  using assms
  by (simp_all add: snd_getInstances snd_getClusters snd_getClustersByName
      collect_instances_Panics collect_clusters_Panics collect_clusters_named_Panics)

subsection \<open>The outside calls of a query\<close>

lemma trace_getInstances:
  "trace (fst (getInstances rdb ord s)) = trace s @ query_calls rdb (snd (getInstances rdb ord s))"
  by (simp add: getInstances_def Let_def inven_addHeaders inven_updateStock_emit trace_emit
      trace_addHeaders trace_updateStock query_calls_def split: option.splits run.splits)

lemma trace_getClusters:
  "trace (fst (getClusters rdb ord s)) = trace s @ query_calls rdb (snd (getClusters rdb ord s))"
  by (simp add: getClusters_def Let_def inven_addHeaders inven_updateStock_emit trace_emit
      trace_addHeaders trace_updateStock query_calls_def split: option.splits run.splits)

lemma trace_getClustersByName:
  "trace (fst (getClustersByName n rdb ord s)) =
     trace s @ query_calls rdb (snd (getClustersByName n rdb ord s))"
  by (simp add: getClustersByName_def Let_def inven_addHeaders inven_updateStock_emit trace_emit
      trace_addHeaders trace_updateStock query_calls_def split: option.splits run.splits)

lemma trace_getAccounts:
  "trace (fst (getAccounts rdb ord s)) = trace s @ query_calls rdb (snd (getAccounts rdb ord s))"
  by (simp add: getAccounts_def Let_def inven_addHeaders inven_updateStock_emit trace_emit
      trace_addHeaders trace_updateStock query_calls_def split: option.splits)

lemma trace_getAccountsByName:
  "trace (fst (getAccountsByName n rdb s)) =
     trace s @ query_calls rdb (snd (getAccountsByName n rdb s))"
  by (simp add: getAccountsByName_def Let_def inven_addHeaders inven_updateStock_emit trace_emit
      trace_addHeaders trace_updateStock query_calls_def split: option.splits)

subsection \<open>A refresh repeated on the same reply\<close>

lemma inven_updateStock_again:
  assumes "inven s' = inven (updateStock rdb s)"
  shows "inven (updateStock rdb s') = inven (updateStock rdb s)"
  by (simp add: inven_updateStock [of rdb s'] assms) (simp add: inven_updateStock Unmarshal_twice)

subsection \<open>Answers that list the same items\<close>

lemma lists_accounts_empty:
  "lists_accounts out {#} \<Longrightarrow> out = PureJSON StatusOK (AccountList
     \<lparr>AccountListResponse.Count = 0, AccountListResponse.Accounts = Some []\<rparr>)"
  by (auto simp: lists_accounts_def)

lemma lists_clusters_empty:
  "lists_clusters out {#} \<Longrightarrow> out = PureJSON StatusOK (ClusterList
     \<lparr>ClusterListResponse.Count = 0, ClusterListResponse.Clusters = Some []\<rparr>)"
  by (auto simp: lists_clusters_def)

lemma lists_instances_empty:
  "lists_instances out {#} \<Longrightarrow> out = PureJSON StatusOK (InstanceList
     \<lparr>InstanceListResponse.Count = 0, InstanceListResponse.Instances = Some []\<rparr>)"
  by (auto simp: lists_instances_def)

lemma same_items_lists_instances:
  "lists_instances out M \<Longrightarrow> lists_instances out' M \<Longrightarrow> same_items out out'"
proof -
  assume "lists_instances out M" and "lists_instances out' M"
  then obtain xs ys where xs: "mset xs = M"
      "out = PureJSON StatusOK (InstanceList \<lparr>InstanceListResponse.Count = length xs, InstanceListResponse.Instances = Some xs\<rparr>)"
    and ys: "mset ys = M"
      "out' = PureJSON StatusOK (InstanceList \<lparr>InstanceListResponse.Count = length ys, InstanceListResponse.Instances = Some ys\<rparr>)"
    unfolding lists_instances_def by blast
  from xs(1) ys(1) have "length xs = length ys"
    by (metis size_mset)
  with xs ys show ?thesis
    by simp
qed

lemma same_items_lists_clusters:
  "lists_clusters out M \<Longrightarrow> lists_clusters out' M \<Longrightarrow> same_items out out'"
proof -
  assume "lists_clusters out M" and "lists_clusters out' M"
  then obtain xs ys where xs: "mset xs = M"
      "out = PureJSON StatusOK (ClusterList \<lparr>ClusterListResponse.Count = length xs, ClusterListResponse.Clusters = Some xs\<rparr>)"
    and ys: "mset ys = M"
      "out' = PureJSON StatusOK (ClusterList \<lparr>ClusterListResponse.Count = length ys, ClusterListResponse.Clusters = Some ys\<rparr>)"
    unfolding lists_clusters_def by blast
  from xs(1) ys(1) have "length xs = length ys"
    by (metis size_mset)
  with xs ys show ?thesis
    by simp
qed

lemma same_items_lists_accounts:
  "lists_accounts out M \<Longrightarrow> lists_accounts out' M \<Longrightarrow> same_items out out'"
proof -
  assume "lists_accounts out M" and "lists_accounts out' M"
  then obtain xs ys where xs: "mset xs = M"
      "out = PureJSON StatusOK (AccountList \<lparr>AccountListResponse.Count = length xs, AccountListResponse.Accounts = Some xs\<rparr>)"
    and ys: "mset ys = M"
      "out' = PureJSON StatusOK (AccountList \<lparr>AccountListResponse.Count = length ys, AccountListResponse.Accounts = Some ys\<rparr>)"
    unfolding lists_accounts_def by blast
  from xs(1) ys(1) have "length xs = length ys"
    by (metis size_mset)
  with xs ys show ?thesis
    by simp
qed

lemma NewInventory_holds_nothing:
  "all_accounts NewInventory = {#}" "all_clusters NewInventory = {#}"
  "all_instances NewInventory = {#}"
  by (simp_all add: all_accounts_def all_clusters_def all_instances_def values_of_def
      NewInventory_def)

subsection \<open>The example inventories\<close>

lemma valid_order_acct1:
  "valid_order \<lparr>Inventory.Accounts = [''acct1'' \<mapsto> acct1]\<rparr> (visit [''acct1''] [''clusterA''])"
  by (auto simp: valid_order_def iteration_order_def visit_def acct1_def split: if_splits)

lemma valid_order_east_west:
  "valid_order \<lparr>Inventory.Accounts = [''east'' \<mapsto> east, ''west'' \<mapsto> west]\<rparr>
     (visit [''east'', ''west''] [''shared''])"
  by (auto simp: valid_order_def iteration_order_def visit_def east_def west_def split: if_splits)

lemma valid_order_west_east:
  "valid_order \<lparr>Inventory.Accounts = [''east'' \<mapsto> east, ''west'' \<mapsto> west]\<rparr>
     (visit [''west'', ''east''] [''shared''])"
  by (auto simp: valid_order_def iteration_order_def visit_def east_def west_def split: if_splits)

lemma valid_order_north:
  "valid_order \<lparr>Inventory.Accounts = [''north'' \<mapsto> north]\<rparr> (visit [''north''] [''gone''])"
  by (auto simp: valid_order_def iteration_order_def visit_def north_def split: if_splits)

lemma valid_order_NewInventory: "valid_order NewInventory (visit [] [])"
  by (simp add: valid_order_def iteration_order_def visit_def NewInventory_def)

lemma no_nil_cluster_acct1: "no_nil_cluster \<lparr>Inventory.Accounts = [''acct1'' \<mapsto> acct1]\<rparr>"
  by (auto simp: no_nil_cluster_def acct1_def split: if_splits)

lemma no_nil_cluster_east_west:
  "no_nil_cluster \<lparr>Inventory.Accounts = [''east'' \<mapsto> east, ''west'' \<mapsto> west]\<rparr>"
  by (auto simp: no_nil_cluster_def east_def west_def split: if_splits)

lemma no_nil_cluster_NewInventory: "no_nil_cluster NewInventory"
  by (simp add: no_nil_cluster_def NewInventory_def)

lemma nil_cluster_north: "\<not> no_nil_cluster \<lparr>Inventory.Accounts = [''north'' \<mapsto> north]\<rparr>"
  by (auto simp: no_nil_cluster_def north_def)

lemma held_acct1:
  "inven (updateStock (Stored stock_acct1) init) =
     Some \<lparr>Inventory.Accounts = [''acct1'' \<mapsto> acct1]\<rparr>"
  by (simp add: inven_updateStock Result_def stock_acct1_def init_def NewInventory_def fun_upd_def)

lemma held_east_west:
  "inven (updateStock (Stored stock_east_west) init) =
     Some \<lparr>Inventory.Accounts = [''east'' \<mapsto> east, ''west'' \<mapsto> west]\<rparr>"
  by (simp add: inven_updateStock Result_def stock_east_west_def init_def NewInventory_def
      fun_upd_def)

lemma held_north:
  "inven (updateStock (Stored stock_north) init) =
     Some \<lparr>Inventory.Accounts = [''north'' \<mapsto> north]\<rparr>"
  by (simp add: inven_updateStock Result_def stock_north_def init_def NewInventory_def fun_upd_def)

lemma held_mistyped:
  "inven (updateStock (Stored stock_mistyped) (updateStock (Stored stock_acct1) init)) =
     Some \<lparr>Inventory.Accounts =
       [''acct1'' \<mapsto> \<lparr>Account.Name = [], Account.Clusters = Map.empty\<rparr>]\<rparr>"
  unfolding inven_updateStock [of "Stored stock_mistyped"] held_acct1
  by (simp add: Result_def stock_mistyped_def)

lemma held_east_west_after_acct1:
  "inven (updateStock (Stored stock_east_west) (updateStock (Stored stock_acct1) init)) =
     Some \<lparr>Inventory.Accounts = [''acct1'' \<mapsto> acct1, ''east'' \<mapsto> east, ''west'' \<mapsto> west]\<rparr>"
  unfolding inven_updateStock [of "Stored stock_east_west"] held_acct1
  by (simp add: Result_def stock_east_west_def fun_upd_def)

lemma held_init_Failure: "inven (updateStock Failure init) = Some NewInventory"
  by (simp add: inven_updateStock Result_def init_def)



lemma north_holds_no_cluster:
  "all_clusters \<lparr>Inventory.Accounts = [''north'' \<mapsto> north]\<rparr> = {#}"
  "all_instances \<lparr>Inventory.Accounts = [''north'' \<mapsto> north]\<rparr> = {#}"
  by (simp_all add: all_clusters_def all_instances_def all_accounts_def values_of_def pointees_def
      north_def Map.graph_map_upd Map.graph_fun_upd_None)

section \<open>The claims\<close>

subsection \<open>C1: a successful refresh and the accounts held before it\<close>

text \<open>
  C1 says that after every successful refresh the held inventory equals exactly the
  deserialized snapshot, and that no account of the prior snapshot that is absent from
  the new one survives. \<^verbatim>\<open>updateStock\<close> decodes into the inventory that \<^verbatim>\<open>inven\<close> already
  points to, and \<^verbatim>\<open>Unmarshal\<close> keeps the existing entries of a map it decodes into. So
  after the server has loaded a stock with the account \<^verbatim>\<open>acct1\<close> and the stock is then
  replaced by one with the accounts \<^verbatim>\<open>east\<close> and \<^verbatim>\<open>west\<close> only, a refresh that reports no
  error leaves \<^verbatim>\<open>acct1\<close> in the cache, beside \<^verbatim>\<open>east\<close> and \<^verbatim>\<open>west\<close>; the snapshot that the new
  text deserializes to has no \<^verbatim>\<open>acct1\<close>.
\<close>

theorem C1_account_absent_from_new_snapshot_survives:
  "inven (updateStock (Stored stock_east_west) (updateStock (Stored stock_acct1) init)) =
     Some \<lparr>Inventory.Accounts = [''acct1'' \<mapsto> acct1, ''east'' \<mapsto> east, ''west'' \<mapsto> west]\<rparr> \<and>
   snapshot stock_east_west =
     Some \<lparr>Inventory.Accounts = [''east'' \<mapsto> east, ''west'' \<mapsto> west]\<rparr> \<and>
   \<not> snd (Unmarshal stock_east_west (inven (updateStock (Stored stock_acct1) init)))"
  by (simp add: inven_updateStock Result_def stock_east_west_def stock_acct1_def init_def
      NewInventory_def snapshot_def fun_upd_def)

subsection \<open>C2: a refresh that fails\<close>




subsection \<open>C3: the list queries return the contents of the held snapshot\<close>

text \<open>
  C3 as stated, for every held snapshot, is false: the stored text \<open>stock_north\<close>
  decodes without error to a snapshot whose account has a null cluster entry, and on
  that snapshot \<^verbatim>\<open>getClusters\<close> and \<^verbatim>\<open>getInstances\<close> panic at the nil pointer and return
  nothing.
\<close>

theorem C3_null_cluster_panics:
  "\<not> refresh_fails (Stored stock_north) init \<and>
   inven (updateStock (Stored stock_north) init) =
     Some \<lparr>Inventory.Accounts = [''north'' \<mapsto> north]\<rparr> \<and>
   valid_order \<lparr>Inventory.Accounts = [''north'' \<mapsto> north]\<rparr> (visit [''north''] [''gone'']) \<and>
   snd (getClusters (Stored stock_north) (visit [''north''] [''gone'']) init) = Panic \<and>
   snd (getInstances (Stored stock_north) (visit [''north''] [''gone'']) init) = Panic"
proof -
  have "\<not> refresh_fails (Stored stock_north) init"
    by (simp add: refresh_fails_def Result_def stock_north_def)
  then show ?thesis
    using held_north valid_order_north
      nil_cluster_panics(1,2) [OF held_north valid_order_north nil_cluster_north]
    by simp
qed

text \<open>
  C3, amended: for every snapshot \<open>S\<close> held after the refresh of a query, and every
  order in which Go may visit its maps, \<^verbatim>\<open>getAccounts\<close> answers with exactly the accounts
  of \<open>S\<close>; and when no cluster entry of \<open>S\<close> is null, \<^verbatim>\<open>getClusters\<close> answers with
  exactly the clusters of all accounts of \<open>S\<close> and \<^verbatim>\<open>getInstances\<close> with exactly the
  instances of all clusters of all accounts of \<open>S\<close>. In each answer the count is the
  length of the sequence.
\<close>

theorem C3_lists_return_the_snapshot:
  assumes "inven (updateStock rdb s) = Some S" and "valid_order S ord"
  shows "lists_accounts (snd (getAccounts rdb ord s)) (all_accounts S) \<and>
     (no_nil_cluster S \<longrightarrow>
        lists_clusters (snd (getClusters rdb ord s)) (all_clusters S) \<and>
        lists_instances (snd (getInstances rdb ord s)) (all_instances S))"
  using getAccounts_lists[OF assms] getClusters_lists[OF assms] getInstances_lists[OF assms]
  by simp

text \<open>
  The scenario of the spec: one account \<^verbatim>\<open>acct1\<close> with one cluster \<^verbatim>\<open>clusterA\<close> holding two
  instances. The clusters query returns \<^verbatim>\<open>clusterA\<close> with count 1, the instances query
  two instances with count 2.
\<close>

theorem C3_acct1_one_cluster_two_instances:
  "inven (updateStock (Stored stock_acct1) init) =
     Some \<lparr>Inventory.Accounts = [''acct1'' \<mapsto> acct1]\<rparr> \<and>
   valid_order \<lparr>Inventory.Accounts = [''acct1'' \<mapsto> acct1]\<rparr> (visit [''acct1''] [''clusterA'']) \<and>
   no_nil_cluster \<lparr>Inventory.Accounts = [''acct1'' \<mapsto> acct1]\<rparr> \<and>
   lists_accounts (snd (getAccounts (Stored stock_acct1) (visit [''acct1''] [''clusterA'']) init))
     (all_accounts \<lparr>Inventory.Accounts = [''acct1'' \<mapsto> acct1]\<rparr>) \<and>
   lists_clusters (snd (getClusters (Stored stock_acct1) (visit [''acct1''] [''clusterA'']) init))
     (all_clusters \<lparr>Inventory.Accounts = [''acct1'' \<mapsto> acct1]\<rparr>) \<and>
   lists_instances (snd (getInstances (Stored stock_acct1) (visit [''acct1''] [''clusterA'']) init))
     (all_instances \<lparr>Inventory.Accounts = [''acct1'' \<mapsto> acct1]\<rparr>) \<and>
   snd (getClusters (Stored stock_acct1) (visit [''acct1''] [''clusterA'']) init) =
     PureJSON StatusOK (ClusterList
       \<lparr>ClusterListResponse.Count = 1, ClusterListResponse.Clusters = Some [clusterA]\<rparr>) \<and>
   snd (getInstances (Stored stock_acct1) (visit [''acct1''] [''clusterA'']) init) =
     PureJSON StatusOK (InstanceList
       \<lparr>InstanceListResponse.Count = 2,
        InstanceListResponse.Instances = Some [''i-1'', ''i-2'']\<rparr>)"
proof -
  have clusters: "snd (getClusters (Stored stock_acct1) (visit [''acct1''] [''clusterA'']) init) =
      PureJSON StatusOK (ClusterList
        \<lparr>ClusterListResponse.Count = 1, ClusterListResponse.Clusters = Some [clusterA]\<rparr>)"
    unfolding snd_getClusters held_acct1
    by (simp add: collect_clusters_def visit_def acct1_def
        NewClusterListResponse_def append_slice_def len_def)
  have instances: "snd (getInstances (Stored stock_acct1) (visit [''acct1''] [''clusterA'']) init) =
      PureJSON StatusOK (InstanceList
        \<lparr>InstanceListResponse.Count = 2,
         InstanceListResponse.Instances = Some [''i-1'', ''i-2'']\<rparr>)"
    unfolding snd_getInstances held_acct1
    by (simp add: collect_instances_def visit_def acct1_def
        clusterA_def NewInstanceListResponse_def append_slice_def len_def)
  show ?thesis
    using C3_lists_return_the_snapshot [OF held_acct1 valid_order_acct1]
      held_acct1 valid_order_acct1 no_nil_cluster_acct1 clusters instances
    by simp
qed

subsection \<open>C4: the lookup of an account by name\<close>

text \<open>
  C4: for every name \<open>n\<close> and every snapshot \<open>S\<close> held after the refresh,
  \<^verbatim>\<open>getAccountsByName\<close> answers with the account that \<open>S\<close> stores under the key \<open>n\<close>
  when the key is present, and with status 404 and no body when it is absent; it answers
  404 exactly when the key is absent, whatever the store returned.
\<close>

theorem C4_account_by_name_or_not_found:
  assumes "inven (updateStock rdb s) = Some S"
  shows "snd (getAccountsByName n rdb s) =
       (case Inventory.Accounts S n of
          Some account \<Rightarrow> PureJSON StatusOK (AccountBody account)
        | None \<Rightarrow> Status StatusNotFound) \<and>
     (snd (getAccountsByName n rdb s) = Status StatusNotFound \<longleftrightarrow>
        Inventory.Accounts S n = None)"
  using assms by (simp add: snd_getAccountsByName split: option.splits)

text \<open>
  With \<^verbatim>\<open>acct1\<close> held, the name \<^verbatim>\<open>acct1\<close> is answered with the account, the name \<^verbatim>\<open>x\<close>
  with 404.
\<close>

theorem C4_acct1_found_x_not_found:
  "inven (updateStock (Stored stock_acct1) init) =
     Some \<lparr>Inventory.Accounts = [''acct1'' \<mapsto> acct1]\<rparr> \<and>
   snd (getAccountsByName ''acct1'' (Stored stock_acct1) init) =
     PureJSON StatusOK (AccountBody acct1) \<and>
   snd (getAccountsByName ''x'' (Stored stock_acct1) init) = Status StatusNotFound"
  using C4_account_by_name_or_not_found [OF held_acct1, of "''acct1''"]
    C4_account_by_name_or_not_found [OF held_acct1, of "''x''"] held_acct1
  by simp

subsection \<open>C5: the clusters of a name\<close>

text \<open>
  C5 as stated, for every held snapshot, is false: on the snapshot of \<open>stock_north\<close>,
  whose account has a null cluster entry, \<^verbatim>\<open>getClustersByName\<close> panics when it reads the
  name through the nil pointer, whatever the name asked for.
\<close>

theorem C5_null_cluster_panics_for_any_name:
  "inven (updateStock (Stored stock_north) init) =
     Some \<lparr>Inventory.Accounts = [''north'' \<mapsto> north]\<rparr> \<and>
   valid_order \<lparr>Inventory.Accounts = [''north'' \<mapsto> north]\<rparr> (visit [''north''] [''gone'']) \<and>
   snd (getClustersByName ''shared'' (Stored stock_north) (visit [''north''] [''gone'']) init) =
     Panic"
  using held_north valid_order_north
    nil_cluster_panics(3) [OF held_north valid_order_north nil_cluster_north]
  by simp

text \<open>
  C5, amended: for every name \<open>n\<close> and every snapshot \<open>S\<close> held after the refresh in
  which no cluster entry is null, \<^verbatim>\<open>getClustersByName\<close> answers with exactly those
  clusters, across all accounts, whose name equals \<open>n\<close> (equality of strings, so case
  matters). They are counted as a multiset: a match under each of two accounts gives two
  entries, and no match or several matches give status 200 all the same.
\<close>

theorem C5_clusters_by_name:
  assumes "inven (updateStock rdb s) = Some S" and "valid_order S ord" and "no_nil_cluster S"
  shows "lists_clusters (snd (getClustersByName n rdb ord s))
           (filter_mset (\<lambda>c. Cluster.Name c = n) (all_clusters S))"
  using assms by (rule getClustersByName_lists)

text \<open>
  The scenario of the spec: two accounts that each contain a cluster named \<^verbatim>\<open>shared\<close>.
  The query for \<^verbatim>\<open>shared\<close> returns two clusters; the query for \<^verbatim>\<open>Shared\<close> returns none.
\<close>

theorem C5_shared_in_two_accounts:
  "inven (updateStock (Stored stock_east_west) init) =
     Some \<lparr>Inventory.Accounts = [''east'' \<mapsto> east, ''west'' \<mapsto> west]\<rparr> \<and>
   valid_order \<lparr>Inventory.Accounts = [''east'' \<mapsto> east, ''west'' \<mapsto> west]\<rparr>
     (visit [''east'', ''west''] [''shared'']) \<and>
   no_nil_cluster \<lparr>Inventory.Accounts = [''east'' \<mapsto> east, ''west'' \<mapsto> west]\<rparr> \<and>
   lists_clusters
     (snd (getClustersByName ''shared'' (Stored stock_east_west)
        (visit [''east'', ''west''] [''shared'']) init))
     (filter_mset (\<lambda>c. Cluster.Name c = ''shared'')
        (all_clusters \<lparr>Inventory.Accounts = [''east'' \<mapsto> east, ''west'' \<mapsto> west]\<rparr>)) \<and>
   snd (getClustersByName ''shared'' (Stored stock_east_west)
        (visit [''east'', ''west''] [''shared'']) init) =
     PureJSON StatusOK (ClusterList
       \<lparr>ClusterListResponse.Count = 2,
        ClusterListResponse.Clusters = Some [shared_east, shared_west]\<rparr>) \<and>
   snd (getClustersByName ''Shared'' (Stored stock_east_west)
        (visit [''east'', ''west''] [''shared'']) init) =
     PureJSON StatusOK (ClusterList
       \<lparr>ClusterListResponse.Count = 0, ClusterListResponse.Clusters = Some []\<rparr>)"
proof -
  have two: "snd (getClustersByName ''shared'' (Stored stock_east_west)
        (visit [''east'', ''west''] [''shared'']) init) =
     PureJSON StatusOK (ClusterList
       \<lparr>ClusterListResponse.Count = 2,
        ClusterListResponse.Clusters = Some [shared_east, shared_west]\<rparr>)"
    unfolding snd_getClustersByName held_east_west
    by (simp add: collect_clusters_named_def visit_def
        east_def west_def shared_east_def shared_west_def NewClusterListResponse_def
        append_slice_def len_def)
  have none: "snd (getClustersByName ''Shared'' (Stored stock_east_west)
        (visit [''east'', ''west''] [''shared'']) init) =
     PureJSON StatusOK (ClusterList
       \<lparr>ClusterListResponse.Count = 0, ClusterListResponse.Clusters = Some []\<rparr>)"
    unfolding snd_getClustersByName held_east_west
    by (simp add: collect_clusters_named_def visit_def
        east_def west_def shared_east_def shared_west_def NewClusterListResponse_def
        append_slice_def len_def)
  show ?thesis
    using C5_clusters_by_name
        [OF held_east_west valid_order_east_west no_nil_cluster_east_west, of "''shared''"]
      held_east_west valid_order_east_west no_nil_cluster_east_west two none
    by simp
qed

subsection \<open>C6: no match gives an empty sequence\<close>

text \<open>
  C6 as stated, never an error, is false, in two ways. When nothing was ever loaded and
  the stored text is \<^verbatim>\<open>null\<close>, the refresh reports no error, \<^verbatim>\<open>inven\<close> is nil, and each
  of the four list queries panics. When the held snapshot is that of \<open>stock_north\<close>,
  it has no instance, and \<^verbatim>\<open>getInstances\<close> panics at the null cluster entry.
\<close>

theorem C6_null_text_or_null_cluster_panics:
  "\<not> refresh_fails (Stored Literal_null) (init :: string state) \<and>
   inven (updateStock (Stored Literal_null) (init :: string state)) = None \<and>
   snd (getAccounts (Stored Literal_null) (visit [] []) (init :: string state)) = Panic \<and>
   snd (getClusters (Stored Literal_null) (visit [] []) (init :: string state)) = Panic \<and>
   snd (getClustersByName ''shared'' (Stored Literal_null) (visit [] [])
     (init :: string state)) = Panic \<and>
   snd (getInstances (Stored Literal_null) (visit [] []) (init :: string state)) = Panic \<and>
   inven (updateStock (Stored stock_north) init) =
     Some \<lparr>Inventory.Accounts = [''north'' \<mapsto> north]\<rparr> \<and>
   valid_order \<lparr>Inventory.Accounts = [''north'' \<mapsto> north]\<rparr> (visit [''north''] [''gone'']) \<and>
   all_instances \<lparr>Inventory.Accounts = [''north'' \<mapsto> north]\<rparr> = {#} \<and>
   snd (getInstances (Stored stock_north) (visit [''north''] [''gone'']) init) = Panic"
proof -
  have null: "inven (updateStock (Stored Literal_null) (init :: string state)) = None"
    by (simp add: inven_updateStock_cases)
  have "\<not> refresh_fails (Stored Literal_null) (init :: string state)"
    by (simp add: refresh_fails_def Result_def)
  then show ?thesis
    using null nil_inven_panics(1,2,3,4) [OF null] held_north valid_order_north
      north_holds_no_cluster(2)
      nil_cluster_panics(1) [OF held_north valid_order_north nil_cluster_north]
    by simp
qed

text \<open>
  C6, amended: when an inventory \<open>S\<close> is held after the refresh, the accounts query
  answers an \<open>S\<close> without accounts with status 200, count 0 and the empty sequence,
  which is not the nil slice; and when no cluster entry of \<open>S\<close> is null, so do the
  clusters query when \<open>S\<close> has no cluster, the query for the clusters of a name when
  \<open>S\<close> has no cluster of that name, and the instances query when \<open>S\<close> has no
  instance. The case where nothing was ever loaded and the refresh fails is the instance
  \<open>S = NewInventory\<close>.
\<close>

theorem C6_no_match_gives_empty_sequence:
  assumes "inven (updateStock rdb s) = Some S" and "valid_order S ord"
  shows "(all_accounts S = {#} \<longrightarrow>
        snd (getAccounts rdb ord s) = PureJSON StatusOK (AccountList
          \<lparr>AccountListResponse.Count = 0, AccountListResponse.Accounts = Some []\<rparr>)) \<and>
     (no_nil_cluster S \<longrightarrow>
        (all_clusters S = {#} \<longrightarrow>
           snd (getClusters rdb ord s) = PureJSON StatusOK (ClusterList
             \<lparr>ClusterListResponse.Count = 0, ClusterListResponse.Clusters = Some []\<rparr>)) \<and>
        (filter_mset (\<lambda>c. Cluster.Name c = n) (all_clusters S) = {#} \<longrightarrow>
           snd (getClustersByName n rdb ord s) = PureJSON StatusOK (ClusterList
             \<lparr>ClusterListResponse.Count = 0, ClusterListResponse.Clusters = Some []\<rparr>)) \<and>
        (all_instances S = {#} \<longrightarrow>
           snd (getInstances rdb ord s) = PureJSON StatusOK (InstanceList
             \<lparr>InstanceListResponse.Count = 0, InstanceListResponse.Instances = Some []\<rparr>)))"
proof (intro conjI impI)
  assume "all_accounts S = {#}"
  with getAccounts_lists[OF assms] show "snd (getAccounts rdb ord s) = PureJSON StatusOK
      (AccountList \<lparr>AccountListResponse.Count = 0, AccountListResponse.Accounts = Some []\<rparr>)"
    by (simp add: lists_accounts_empty)
next
  assume "no_nil_cluster S" and "all_clusters S = {#}"
  with getClusters_lists[OF assms] show "snd (getClusters rdb ord s) = PureJSON StatusOK
      (ClusterList \<lparr>ClusterListResponse.Count = 0, ClusterListResponse.Clusters = Some []\<rparr>)"
    by (simp add: lists_clusters_empty)
next
  assume "no_nil_cluster S" and "filter_mset (\<lambda>c. Cluster.Name c = n) (all_clusters S) = {#}"
  with getClustersByName_lists[OF assms, of n]
  have "lists_clusters (snd (getClustersByName n rdb ord s)) {#}"
    by simp
  then show "snd (getClustersByName n rdb ord s) = PureJSON StatusOK
      (ClusterList \<lparr>ClusterListResponse.Count = 0, ClusterListResponse.Clusters = Some []\<rparr>)"
    by (rule lists_clusters_empty)
next
  assume "no_nil_cluster S" and "all_instances S = {#}"
  with getInstances_lists[OF assms] show "snd (getInstances rdb ord s) = PureJSON StatusOK
      (InstanceList \<lparr>InstanceListResponse.Count = 0, InstanceListResponse.Instances = Some []\<rparr>)"
    by (simp add: lists_instances_empty)
qed

text \<open>
  Nothing was ever loaded and the store fails: every list query answers with count 0
  and the empty sequence.
\<close>

theorem C6_never_loaded_gives_empty_sequences:
  "inven (updateStock Failure (init :: string state)) = Some NewInventory \<and>
   valid_order (NewInventory :: string Inventory) (visit [] []) \<and>
   no_nil_cluster (NewInventory :: string Inventory) \<and>
   snd (getAccounts Failure (visit [] []) (init :: string state)) =
     PureJSON StatusOK (AccountList
       \<lparr>AccountListResponse.Count = 0, AccountListResponse.Accounts = Some []\<rparr>) \<and>
   snd (getClusters Failure (visit [] []) (init :: string state)) =
     PureJSON StatusOK (ClusterList
       \<lparr>ClusterListResponse.Count = 0, ClusterListResponse.Clusters = Some []\<rparr>) \<and>
   snd (getClustersByName ''shared'' Failure (visit [] []) (init :: string state)) =
     PureJSON StatusOK (ClusterList
       \<lparr>ClusterListResponse.Count = 0, ClusterListResponse.Clusters = Some []\<rparr>) \<and>
   snd (getInstances Failure (visit [] []) (init :: string state)) =
     PureJSON StatusOK (InstanceList
       \<lparr>InstanceListResponse.Count = 0, InstanceListResponse.Instances = Some []\<rparr>)"
proof -
  have held: "inven (updateStock Failure (init :: string state)) = Some NewInventory"
    by (rule held_init_Failure)
  have order: "valid_order (NewInventory :: string Inventory) (visit [] [])"
    by (rule valid_order_NewInventory)
  have "no_nil_cluster (NewInventory :: string Inventory)"
    by (rule no_nil_cluster_NewInventory)
  then show ?thesis
    using C6_no_match_gives_empty_sequence [OF held order, of "''shared''"] held order
    by (simp add: NewInventory_holds_nothing)
qed

subsection \<open>C7: list-wrapped results\<close>

text \<open>
  C7 as stated, for all five queries, is false: \<^verbatim>\<open>getAccountsByName\<close> passes the account
  itself to \<^verbatim>\<open>c.PureJSON\<close>, with no list around it and no count field. A list query
  returns no list-wrapped result either when it panics: \<^verbatim>\<open>getAccounts\<close> when \<^verbatim>\<open>inven\<close> is
  nil after the stored text \<^verbatim>\<open>null\<close>, \<^verbatim>\<open>getClusters\<close> on the null cluster entry of
  \<open>stock_north\<close>.
\<close>

theorem C7_account_by_name_is_not_list_wrapped:
  "snd (getAccountsByName ''acct1'' (Stored stock_acct1) init) =
     PureJSON StatusOK (AccountBody acct1) \<and>
   \<not> list_wrapped (snd (getAccountsByName ''acct1'' (Stored stock_acct1) init)) \<and>
   inven (updateStock (Stored Literal_null) (init :: string state)) = None \<and>
   \<not> list_wrapped (snd (getAccounts (Stored Literal_null) (visit [] [])
     (init :: string state))) \<and>
   inven (updateStock (Stored stock_north) init) =
     Some \<lparr>Inventory.Accounts = [''north'' \<mapsto> north]\<rparr> \<and>
   valid_order \<lparr>Inventory.Accounts = [''north'' \<mapsto> north]\<rparr> (visit [''north''] [''gone'']) \<and>
   \<not> list_wrapped (snd (getClusters (Stored stock_north) (visit [''north''] [''gone'']) init))"
proof -
  have null: "inven (updateStock (Stored Literal_null) (init :: string state)) = None"
    by (simp add: inven_updateStock_cases)
  show ?thesis
    using null nil_inven_panics(4) [OF null] held_north valid_order_north
      nil_cluster_panics(2) [OF held_north valid_order_north nil_cluster_north]
    by (simp add: snd_getAccountsByName held_acct1)
qed

text \<open>
  C7, amended: when an inventory \<open>S\<close> is held after the refresh, the accounts query
  returns a list-wrapped result, with a count field that is the number of items; when
  moreover no cluster entry of \<open>S\<close> is null, so do the instances query, the clusters
  query and the query for the clusters of a name. The lookup of an account by name
  returns the account itself, or status 404 without a body, and no count field.
\<close>

theorem C7_lists_are_wrapped_lookup_is_bare:
  assumes "inven (updateStock rdb s) = Some S"
  shows "list_wrapped (snd (getAccounts rdb ord s)) \<and>
     (no_nil_cluster S \<longrightarrow>
        list_wrapped (snd (getInstances rdb ord s)) \<and>
        list_wrapped (snd (getClusters rdb ord s)) \<and>
        list_wrapped (snd (getClustersByName n rdb ord s))) \<and>
     \<not> list_wrapped (snd (getAccountsByName n rdb s)) \<and>
     snd (getAccountsByName n rdb s) =
       (case Inventory.Accounts S n of
          Some account \<Rightarrow> PureJSON StatusOK (AccountBody account)
        | None \<Rightarrow> Status StatusNotFound)"
  using assms
  by (simp add: snd_getInstances snd_getClusters snd_getClustersByName snd_getAccounts
      snd_getAccountsByName collect_instances_Returns collect_clusters_Returns
      collect_clusters_named_Returns collect_accounts_eq NewInstanceListResponse_foldl
      NewClusterListResponse_foldl NewAccountListResponse_foldl len_def split: option.splits)

text \<open>With \<^verbatim>\<open>acct1\<close> held: four list-wrapped results, and the account itself.\<close>

theorem C7_acct1_wrapped_and_bare:
  "inven (updateStock (Stored stock_acct1) init) =
     Some \<lparr>Inventory.Accounts = [''acct1'' \<mapsto> acct1]\<rparr> \<and>
   no_nil_cluster \<lparr>Inventory.Accounts = [''acct1'' \<mapsto> acct1]\<rparr> \<and>
   list_wrapped (snd (getInstances (Stored stock_acct1) (visit [''acct1''] [''clusterA'']) init)) \<and>
   list_wrapped (snd (getClusters (Stored stock_acct1) (visit [''acct1''] [''clusterA'']) init)) \<and>
   list_wrapped (snd (getClustersByName ''acct1'' (Stored stock_acct1)
     (visit [''acct1''] [''clusterA'']) init)) \<and>
   list_wrapped (snd (getAccounts (Stored stock_acct1) (visit [''acct1''] [''clusterA'']) init)) \<and>
   snd (getAccountsByName ''acct1'' (Stored stock_acct1) init) =
     PureJSON StatusOK (AccountBody acct1)"
  using C7_lists_are_wrapped_lookup_is_bare
      [OF held_acct1, of "visit [''acct1''] [''clusterA'']" "''acct1''"] held_acct1
    no_nil_cluster_acct1
  by simp

subsection \<open>C8: the same query twice\<close>

text \<open>
  C8 as stated, with the same order of the items, is false: two \<^verbatim>\<open>range\<close> loops over
  the same map need not visit it in the same order. The store holds the accounts
  \<^verbatim>\<open>east\<close> and \<^verbatim>\<open>west\<close> and does not change; the first \<^verbatim>\<open>getAccounts\<close> visits \<^verbatim>\<open>east\<close>
  first, the second one, run right after it, visits \<^verbatim>\<open>west\<close> first, and the two answers
  differ.
\<close>

theorem C8_order_of_accounts_differs:
  "valid_order \<lparr>Inventory.Accounts = [''east'' \<mapsto> east, ''west'' \<mapsto> west]\<rparr>
     (visit [''east'', ''west''] [''shared'']) \<and>
   valid_order \<lparr>Inventory.Accounts = [''east'' \<mapsto> east, ''west'' \<mapsto> west]\<rparr>
     (visit [''west'', ''east''] [''shared'']) \<and>
   snd (getAccounts (Stored stock_east_west) (visit [''east'', ''west''] [''shared'']) init) =
     PureJSON StatusOK (AccountList
       \<lparr>AccountListResponse.Count = 2, AccountListResponse.Accounts = Some [east, west]\<rparr>) \<and>
   snd (getAccounts (Stored stock_east_west) (visit [''west'', ''east''] [''shared''])
     (fst (getAccounts (Stored stock_east_west) (visit [''east'', ''west''] [''shared'']) init))) =
     PureJSON StatusOK (AccountList
       \<lparr>AccountListResponse.Count = 2, AccountListResponse.Accounts = Some [west, east]\<rparr>) \<and>
   snd (getAccounts (Stored stock_east_west) (visit [''west'', ''east''] [''shared''])
     (fst (getAccounts (Stored stock_east_west) (visit [''east'', ''west''] [''shared'']) init))) \<noteq>
   snd (getAccounts (Stored stock_east_west) (visit [''east'', ''west''] [''shared'']) init)"
proof -
  have first: "snd (getAccounts (Stored stock_east_west) (visit [''east'', ''west''] [''shared'']) init) =
     PureJSON StatusOK (AccountList
       \<lparr>AccountListResponse.Count = 2, AccountListResponse.Accounts = Some [east, west]\<rparr>)"
    by (simp add: snd_getAccounts held_east_west collect_accounts_def visit_def
        NewAccountListResponse_def append_slice_def len_def)
  have again: "inven (updateStock (Stored stock_east_west)
      (fst (getAccounts (Stored stock_east_west) (visit [''east'', ''west''] [''shared'']) init))) =
      Some \<lparr>Inventory.Accounts = [''east'' \<mapsto> east, ''west'' \<mapsto> west]\<rparr>"
    using inven_updateStock_again [OF inven_getAccounts] held_east_west by metis
  have second: "snd (getAccounts (Stored stock_east_west) (visit [''west'', ''east''] [''shared''])
     (fst (getAccounts (Stored stock_east_west) (visit [''east'', ''west''] [''shared'']) init))) =
     PureJSON StatusOK (AccountList
       \<lparr>AccountListResponse.Count = 2, AccountListResponse.Accounts = Some [west, east]\<rparr>)"
    unfolding snd_getAccounts again
    by (simp add: collect_accounts_def visit_def NewAccountListResponse_def
        append_slice_def len_def)
  have "east \<noteq> west"
    by (simp add: east_def west_def)
  with first second valid_order_east_west valid_order_west_east show ?thesis
    by simp
qed

text \<open>
  C8, amended: when a query is called twice in succession and the store returns the same
  reply to both, the two answers have the same items and the same count, whatever the
  orders in which the two calls visit the maps; the order of the items may differ. The
  lookup of an account by name gives the same answer twice.
\<close>

theorem C8_repeated_query_same_items:
  assumes "inven (updateStock rdb s) = Some S"
    and "valid_order S ord" and "valid_order S ord'"
  shows "same_items (snd (getInstances rdb ord s))
       (snd (getInstances rdb ord' (fst (getInstances rdb ord s)))) \<and>
     same_items (snd (getClusters rdb ord s))
       (snd (getClusters rdb ord' (fst (getClusters rdb ord s)))) \<and>
     same_items (snd (getClustersByName n rdb ord s))
       (snd (getClustersByName n rdb ord' (fst (getClustersByName n rdb ord s)))) \<and>
     same_items (snd (getAccounts rdb ord s))
       (snd (getAccounts rdb ord' (fst (getAccounts rdb ord s)))) \<and>
     snd (getAccountsByName n rdb (fst (getAccountsByName n rdb s))) =
       snd (getAccountsByName n rdb s)"
proof (intro conjI)
  have a: "inven (updateStock rdb (fst (getInstances rdb ord s))) = Some S"
    using assms(1) by (simp add: inven_updateStock_again [OF inven_getInstances])
  show "same_items (snd (getInstances rdb ord s))
       (snd (getInstances rdb ord' (fst (getInstances rdb ord s))))"
  proof (cases "no_nil_cluster S")
    case True
    from getInstances_lists [OF assms(1,2) True] getInstances_lists [OF a assms(3) True]
    show ?thesis by (rule same_items_lists_instances)
  next
    case False
    with nil_cluster_panics(1) [OF assms(1,2)] nil_cluster_panics(1) [OF a assms(3)]
    show ?thesis by simp
  qed
  have b: "inven (updateStock rdb (fst (getClusters rdb ord s))) = Some S"
    using assms(1) by (simp add: inven_updateStock_again [OF inven_getClusters])
  show "same_items (snd (getClusters rdb ord s))
       (snd (getClusters rdb ord' (fst (getClusters rdb ord s))))"
  proof (cases "no_nil_cluster S")
    case True
    from getClusters_lists [OF assms(1,2) True] getClusters_lists [OF b assms(3) True]
    show ?thesis by (rule same_items_lists_clusters)
  next
    case False
    with nil_cluster_panics(2) [OF assms(1,2)] nil_cluster_panics(2) [OF b assms(3)]
    show ?thesis by simp
  qed
  have c: "inven (updateStock rdb (fst (getClustersByName n rdb ord s))) = Some S"
    using assms(1) by (simp add: inven_updateStock_again [OF inven_getClustersByName])
  show "same_items (snd (getClustersByName n rdb ord s))
       (snd (getClustersByName n rdb ord' (fst (getClustersByName n rdb ord s))))"
  proof (cases "no_nil_cluster S")
    case True
    from getClustersByName_lists [OF assms(1,2) True] getClustersByName_lists [OF c assms(3) True]
    show ?thesis by (rule same_items_lists_clusters)
  next
    case False
    with nil_cluster_panics(3) [OF assms(1,2)] nil_cluster_panics(3) [OF c assms(3)]
    show ?thesis by simp
  qed
  have d: "inven (updateStock rdb (fst (getAccounts rdb ord s))) = Some S"
    using assms(1) by (simp add: inven_updateStock_again [OF inven_getAccounts])
  show "same_items (snd (getAccounts rdb ord s))
       (snd (getAccounts rdb ord' (fst (getAccounts rdb ord s))))"
    using getAccounts_lists [OF assms(1,2)] getAccounts_lists [OF d assms(3)]
    by (rule same_items_lists_accounts)
  have e: "inven (updateStock rdb (fst (getAccountsByName n rdb s))) = Some S"
    using assms(1) by (simp add: inven_updateStock_again [OF inven_getAccountsByName])
  show "snd (getAccountsByName n rdb (fst (getAccountsByName n rdb s))) =
       snd (getAccountsByName n rdb s)"
    by (simp add: snd_getAccountsByName e assms(1))
qed

text \<open>
  \<^verbatim>\<open>east\<close> and \<^verbatim>\<open>west\<close> again: the two answers of \<^verbatim>\<open>getAccounts\<close> hold the same two
  accounts.
\<close>

theorem C8_east_west_same_items:
  "inven (updateStock (Stored stock_east_west) init) =
     Some \<lparr>Inventory.Accounts = [''east'' \<mapsto> east, ''west'' \<mapsto> west]\<rparr> \<and>
   valid_order \<lparr>Inventory.Accounts = [''east'' \<mapsto> east, ''west'' \<mapsto> west]\<rparr>
     (visit [''east'', ''west''] [''shared'']) \<and>
   valid_order \<lparr>Inventory.Accounts = [''east'' \<mapsto> east, ''west'' \<mapsto> west]\<rparr>
     (visit [''west'', ''east''] [''shared'']) \<and>
   same_items
     (snd (getAccounts (Stored stock_east_west) (visit [''east'', ''west''] [''shared'']) init))
     (snd (getAccounts (Stored stock_east_west) (visit [''west'', ''east''] [''shared''])
        (fst (getAccounts (Stored stock_east_west) (visit [''east'', ''west''] [''shared''])
           init))))"
  using C8_repeated_query_same_items
      [OF held_east_west valid_order_east_west valid_order_west_east, of "''shared''"]
    held_east_west valid_order_east_west valid_order_west_east
  by simp

subsection \<open>C9: one refresh, then the traversal\<close>

text \<open>
  C9 as stated is false where it says what the traversal runs against: the freshly
  loaded snapshot on success, the stale one on failure. With \<^verbatim>\<open>acct1\<close> held, a refresh
  on \<open>stock_east_west\<close> reports no error and the lookup of \<^verbatim>\<open>acct1\<close> that triggered it
  still finds the account, which the freshly loaded snapshot does not hold; a refresh on
  \<open>stock_mistyped\<close> fails and the lookup of \<^verbatim>\<open>acct1\<close> that triggered it returns the zero
  Account, not the stale \<^verbatim>\<open>acct1\<close>.
\<close>

theorem C9_traversal_after_refresh_not_fresh_or_stale:
  "\<not> refresh_fails (Stored stock_east_west) (updateStock (Stored stock_acct1) init) \<and>
   snapshot stock_east_west =
     Some \<lparr>Inventory.Accounts = [''east'' \<mapsto> east, ''west'' \<mapsto> west]\<rparr> \<and>
   snd (getAccountsByName ''acct1'' (Stored stock_east_west)
     (updateStock (Stored stock_acct1) init)) = PureJSON StatusOK (AccountBody acct1) \<and>
   refresh_fails (Stored stock_mistyped) (updateStock (Stored stock_acct1) init) \<and>
   inven (updateStock (Stored stock_acct1) init) =
     Some \<lparr>Inventory.Accounts = [''acct1'' \<mapsto> acct1]\<rparr> \<and>
   snd (getAccountsByName ''acct1'' (Stored stock_mistyped)
     (updateStock (Stored stock_acct1) init)) =
     PureJSON StatusOK (AccountBody \<lparr>Account.Name = [], Account.Clusters = Map.empty\<rparr>) \<and>
   acct1 \<noteq> \<lparr>Account.Name = [], Account.Clusters = Map.empty\<rparr>"
proof -
  have "\<not> refresh_fails (Stored stock_east_west) (updateStock (Stored stock_acct1) init)"
    by (simp add: refresh_fails_def Result_def stock_east_west_def)
  moreover have "snapshot stock_east_west =
      Some \<lparr>Inventory.Accounts = [''east'' \<mapsto> east, ''west'' \<mapsto> west]\<rparr>"
    by (simp add: snapshot_def stock_east_west_def fun_upd_def)
  moreover have "snd (getAccountsByName ''acct1'' (Stored stock_east_west)
      (updateStock (Stored stock_acct1) init)) = PureJSON StatusOK (AccountBody acct1)"
    unfolding snd_getAccountsByName held_east_west_after_acct1 by simp
  moreover have "refresh_fails (Stored stock_mistyped) (updateStock (Stored stock_acct1) init)"
    by (simp add: refresh_fails_def Result_def stock_mistyped_def)
  moreover have "snd (getAccountsByName ''acct1'' (Stored stock_mistyped)
      (updateStock (Stored stock_acct1) init)) =
      PureJSON StatusOK (AccountBody \<lparr>Account.Name = [], Account.Clusters = Map.empty\<rparr>)"
    unfolding snd_getAccountsByName held_mistyped by simp
  moreover have "acct1 \<noteq> \<lparr>Account.Name = [], Account.Clusters = Map.empty\<rparr>"
    by (simp add: acct1_def)
  ultimately show ?thesis
    using held_acct1 by simp
qed

text \<open>
  C9, amended: every handler makes, after its debug line, exactly one fetch from the
  store followed by exactly one deserialization attempt (the calls of \<^verbatim>\<open>updateStock\<close>),
  and responds only after them, if it does not panic. Its answer is computed from
  whatever inventory is held after that refresh, which is the stale one when the refresh
  fails by an error of the store or by a text that is not well-formed JSON, or, an
  inventory being held, by a value of the wrong type in a text that stores nothing into
  the accounts.

  The theorem also says what is held after the refresh for every other reply of the
  store: none when the text is \<^verbatim>\<open>null\<close>; and for any other text the inventory held
  before (or a new one when none was held), kept as it is when the text has no value for
  the accounts, emptied when that value is \<^verbatim>\<open>null\<close>, and with the decoded accounts stored
  over the accounts held before otherwise.
\<close>

theorem C9_one_refresh_then_the_traversal:
  "trace (updateStock rdb s) =
     trace s @ [RdbGet] @ (if snd (Result rdb) then [LoggerError] else []) @ [JsonUnmarshal] \<and>
   count_list (query_calls rdb out) RdbGet = 1 \<and>
   count_list (query_calls rdb out) JsonUnmarshal = 1 \<and>
   trace (fst (getInstances rdb ord s)) =
     trace s @ query_calls rdb (snd (getInstances rdb ord s)) \<and>
   snd (getInstances rdb ord s) =
     (case inven (updateStock rdb s) of
        None \<Rightarrow> Panic
      | Some t \<Rightarrow>
          (case collect_instances t ord of
             Panics \<Rightarrow> Panic
           | Returns instances \<Rightarrow>
               PureJSON StatusOK (InstanceList (NewInstanceListResponse instances)))) \<and>
   trace (fst (getClusters rdb ord s)) =
     trace s @ query_calls rdb (snd (getClusters rdb ord s)) \<and>
   snd (getClusters rdb ord s) =
     (case inven (updateStock rdb s) of
        None \<Rightarrow> Panic
      | Some t \<Rightarrow>
          (case collect_clusters t ord of
             Panics \<Rightarrow> Panic
           | Returns clusters \<Rightarrow>
               PureJSON StatusOK (ClusterList (NewClusterListResponse clusters)))) \<and>
   trace (fst (getClustersByName n rdb ord s)) =
     trace s @ query_calls rdb (snd (getClustersByName n rdb ord s)) \<and>
   snd (getClustersByName n rdb ord s) =
     (case inven (updateStock rdb s) of
        None \<Rightarrow> Panic
      | Some t \<Rightarrow>
          (case collect_clusters_named n t ord of
             Panics \<Rightarrow> Panic
           | Returns clusters \<Rightarrow>
               PureJSON StatusOK (ClusterList (NewClusterListResponse clusters)))) \<and>
   trace (fst (getAccounts rdb ord s)) =
     trace s @ query_calls rdb (snd (getAccounts rdb ord s)) \<and>
   snd (getAccounts rdb ord s) =
     (case inven (updateStock rdb s) of
        None \<Rightarrow> Panic
      | Some t \<Rightarrow>
          PureJSON StatusOK (AccountList (NewAccountListResponse (collect_accounts t ord)))) \<and>
   trace (fst (getAccountsByName n rdb s)) =
     trace s @ query_calls rdb (snd (getAccountsByName n rdb s)) \<and>
   snd (getAccountsByName n rdb s) =
     (case inven (updateStock rdb s) of
        None \<Rightarrow> Panic
      | Some t \<Rightarrow>
          (case Inventory.Accounts t n of
             Some account \<Rightarrow> PureJSON StatusOK (AccountBody account)
           | None \<Rightarrow> Status StatusNotFound)) \<and>
   inven (updateStock Failure s) = inven s \<and>
   inven (updateStock (Stored Malformed) s) = inven s \<and>
   inven (updateStock (Stored Literal_null) s) = None \<and>
   inven (updateStock (Stored (Document Absent e)) s) =
     Some (case inven s of None \<Rightarrow> \<lparr>Inventory.Accounts = Map.empty\<rparr> | Some t \<Rightarrow> t) \<and>
   inven (updateStock (Stored (Document Null e)) s) =
     Some \<lparr>Inventory.Accounts = Map.empty\<rparr> \<and>
   inven (updateStock (Stored (Document (Entries es) e)) s) =
     Some \<lparr>Inventory.Accounts =
       (case inven s of None \<Rightarrow> Map.empty | Some t \<Rightarrow> Inventory.Accounts t) ++
         map_of (rev es)\<rparr>"
proof -
  have "count_list (query_calls rdb out) RdbGet = 1"
    and "count_list (query_calls rdb out) JsonUnmarshal = 1"
    by (simp_all add: query_calls_def)
  then show ?thesis
    by (simp only: trace_updateStock trace_getInstances trace_getClusters
        trace_getClustersByName trace_getAccounts trace_getAccountsByName
        snd_getInstances [symmetric] snd_getClusters [symmetric]
        snd_getClustersByName [symmetric] snd_getAccounts [symmetric]
        snd_getAccountsByName [symmetric] inven_updateStock_cases simp_thms)
qed

subsection \<open>C10: the traversal does not write the inventory\<close>

text \<open>
  C10: for every handler, the inventory held when the handler is done is the one held
  right after its call of \<^verbatim>\<open>updateStock\<close>; logging and setting the header do not write
  it either. The loops copy what they append (\<^verbatim>\<open>append(clusters, *cluster)\<close>) and assign
  to no field of the inventory, so in the model the state after the refresh is passed
  on as it is.
\<close>

theorem C10_queries_do_not_write_the_inventory:
  "inven (fst (getInstances rdb ord s)) = inven (updateStock rdb (emit LoggerDebug s)) \<and>
   inven (fst (getClusters rdb ord s)) = inven (updateStock rdb (emit LoggerDebug s)) \<and>
   inven (fst (getClustersByName n rdb ord s)) = inven (updateStock rdb (emit LoggerDebug s)) \<and>
   inven (fst (getAccounts rdb ord s)) = inven (updateStock rdb (emit LoggerDebug s)) \<and>
   inven (fst (getAccountsByName n rdb s)) = inven (updateStock rdb (emit LoggerDebug s)) \<and>
   inven (emit c s) = inven s \<and> inven (addHeaders s) = inven s"
  by (simp only: inven_getInstances inven_getClusters inven_getClustersByName inven_getAccounts
      inven_getAccountsByName inven_updateStock_emit inven_emit inven_addHeaders simp_thms)

end
